theory Spec2Isabelle
  imports
    Main
    "HOL-Library.Char_ord"
    "HOL-Library.List_Lexorder"
    "HOL-Library.Product_Lexorder"
    "HOL-Library.AList"
    "HOL-Library.Multiset"
begin

section \<open>The daily Award Force export: a model of \<^verbatim>\<open>award_force_daily_export.py\<close>\<close>

text \<open>
  The script pulls chapters and entries from a paginated remote API, counts the entries
  per chapter, writes the counts to a workbook and uploads the workbook to a chat.

  The model follows the script function by function. Everything the script does to the
  outside (an HTTP GET, the clock, the workbook writer, reading the file back, the HTTP
  POST, a log line) is an entry of a trace, in the order in which it happens, and the
  outside answers through the functions of an environment record that thread a state of
  the outside world. An exception of the script is the \<open>Inl\<close> of a sum; a loop that may run
  forever returns \<open>None\<close>. The headers and the timeouts of the requests are constants of the
  script and stand in no event; a timeout is one of the ways in which a request raises.
\<close>

subsection \<open>Strings\<close>

text \<open>
  A Python \<^verbatim>\<open>str\<close> is a \<open>string\<close>: the list of its code points, each a \<open>char\<close>, so a
  code point below 256 (a string with a code point from 256 on is not a value of this
  type). \<^verbatim>\<open>str.lower\<close> on these code points: the letters A to Z (65 to 90) and the
  capital letters from 192 to 222, the multiplication sign 215 left out, go to the code
  point 32 higher; every other code point below 256 stays as it is.
  Strings compare as Python compares them: lexicographically, code point by code point
  (\<open>Char_ord\<close>, \<open>List_Lexorder\<close>), and tuples of strings lexicographically
  (\<open>Product_Lexorder\<close>).
\<close>

definition lower_char :: "char \<Rightarrow> char" where
  "lower_char c =
     (let n = (of_char c :: nat) in
      if (65 \<le> n \<and> n \<le> 90) \<or> (192 \<le> n \<and> n \<le> 222 \<and> n \<noteq> 215)
      then char_of (n + 32)
      else c)"

definition lower :: "string \<Rightarrow> string" where
  "lower s = map lower_char s"

subsection \<open>Constants (section 1 of the script)\<close>

definition BASE_URL :: string where
  "BASE_URL = ''https://api.us.cr4ce.com''"

text \<open>\<^verbatim>\<open>CATEGORY_SLUGS["13_17"]\<close> and \<^verbatim>\<open>CATEGORY_SLUGS["above18"]\<close>.\<close>

definition CATEGORY_SLUGS_13_17 :: string where
  "CATEGORY_SLUGS_13_17 = ''ZLgyzemp''"

definition CATEGORY_SLUGS_above18 :: string where
  "CATEGORY_SLUGS_above18 = ''Kgwrlowa''"

text \<open>\<^verbatim>\<open>REGION_MAP\<close>, a dict, in its insertion order.\<close>

definition REGION_MAP :: "(string \<times> string list) list" where
  "REGION_MAP =
     [(''AMR'', [''argentina'', ''brazil'', ''canada'', ''costa rica'',
                 ''mexico'', ''united states of america'']),
      (''PRC'', [''china'']),
      (''APJ'', [''bangladesh'', ''india'', ''indonesia'', ''japan'', ''malaysia'',
                 ''singapore'', ''south korea'', ''taiwan'', ''thailand'',
                 ''vietnam'', ''australia'', ''new zealand''])]"

subsection \<open>Values of the remote API\<close>

text \<open>
  A value decoded from a response body. Python's \<^verbatim>\<open>None\<close> is \<open>JNull\<close>. Numbers are the
  integers (a float is not modelled).
\<close>

datatype json =
    JNull
  | JBool bool
  | JNum int
  | JStr string
  | JArr "json list"
  | JObj "(string \<times> json) list"

text \<open>Python's truth value of such a value, as \<^verbatim>\<open>while url:\<close> and \<^verbatim>\<open>x or None\<close> read it.\<close>

fun truthy :: "json \<Rightarrow> bool" where
  "truthy JNull = False"
| "truthy (JBool b) = b"
| "truthy (JNum n) = (n \<noteq> 0)"
| "truthy (JStr s) = (s \<noteq> [])"
| "truthy (JArr xs) = (xs \<noteq> [])"
| "truthy (JObj kvs) = (kvs \<noteq> [])"

text \<open>
  The records of the two collections, with the fields the script reads:
  \<^verbatim>\<open>ch["slug"]\<close>, \<^verbatim>\<open>ch["name"]["en_GB"]\<close> of a chapter and \<^verbatim>\<open>e["chapter"]["slug"]\<close>,
  \<^verbatim>\<open>e["status"]\<close> of an entry, all strings. A record without one of these keys, for
  which the script raises \<^verbatim>\<open>KeyError\<close>, is not modelled.
\<close>

record chapter_item =
  item_slug :: string
  item_name_en_GB :: string

record entry =
  entry_chapter_slug :: string
  entry_status :: string

text \<open>
  A response body: its \<^verbatim>\<open>data\<close> and its \<^verbatim>\<open>next_page_url\<close> (\<open>None\<close> when the key is
  absent, as \<^verbatim>\<open>body.get\<close> sees it).
\<close>

record 'a body =
  data :: "'a list"
  next_page_url :: "json option"

text \<open>
  What \<^verbatim>\<open>requests.get\<close> does: it raises (a timeout, a connection error, a URL it
  cannot use), or it returns a response with a status code and a body. The body is
  \<open>None\<close> when it cannot be read as the script reads it (\<^verbatim>\<open>r.json()\<close> or \<^verbatim>\<open>body["data"]\<close>
  raises).
\<close>

datatype 'a reply =
    Get_raises
  | Response nat "'a body option"

text \<open>\<^verbatim>\<open>raise_for_status\<close> raises for the codes 400 to 599; \<^verbatim>\<open>resp.ok\<close> is its negation.\<close>

definition is_error_status :: "nat \<Rightarrow> bool" where
  "is_error_status code = (400 \<le> code \<and> code < 600)"

type_synonym params = "(string \<times> json) list"

subsection \<open>Exceptions, rows, the trace, the environment\<close>

datatype error =
    Request_exception
  | HTTP_error nat
  | Body_error
  | Key_error string
  | Workbook_error
  | File_error
  | Upload_exception

text \<open>The inner dict of \<^verbatim>\<open>counts\<close>: the keys \<^verbatim>\<open>13_sub\<close>, \<^verbatim>\<open>13_prog\<close>, \<^verbatim>\<open>18_sub\<close>, \<^verbatim>\<open>18_prog\<close>.\<close>

record chapter_counts =
  c13_sub :: nat
  c13_prog :: nat
  c18_sub :: nat
  c18_prog :: nat

text \<open>The inner dict of \<^verbatim>\<open>chapters\<close>: the keys \<^verbatim>\<open>name\<close> and \<^verbatim>\<open>region\<close>.\<close>

record chapter_meta =
  meta_name :: string
  meta_region :: string

text \<open>A row of the report, one field per column of the workbook.\<close>

record row =
  No :: nat
  Region :: string
  Chapter_Name :: string
  Years_13_17_Submitted :: nat
  Years_13_17_In_Progress :: nat
  Above_18_Years_Submitted :: nat
  Above_18_Years_In_Progress :: nat
  Total :: nat

text \<open>The multipart POST of \<^verbatim>\<open>send_to_telegram\<close>.\<close>

record upload =
  post_url :: string
  chat_id :: string
  caption :: string
  document_name :: string
  document_path :: string

datatype post_reply =
    Post_raises
  | Post_response nat string

text \<open>One constructor per logging call of the script.\<close>

datatype log_message =
    Api_key_missing
  | Run_start
  | Loaded_chapters nat
  | Pulling_entries string
  | Workbook_saved string
  | Telegram_credentials_missing
  | Sent_to_telegram string string
  | Telegram_upload_failed string
  | Run_failed error
  | Run_end

datatype level = INFO | ERROR

datatype event =
    Log level log_message
  | Http_get json "params option"
  | Excel_write string "row list"
  | Http_post upload

record 's world =
  trace :: "event list"
  remote :: 's

definition emit :: "event \<Rightarrow> 's world \<Rightarrow> 's world" where
  "emit ev w = w\<lparr>trace := trace w @ [ev]\<rparr>"

text \<open>
  The environment of a run: the three settings read from the process environment, and
  the outside world's answers. \<open>get_chapters\<close> and \<open>get_entries\<close> are \<^verbatim>\<open>requests.get\<close>
  on pages of chapters and on pages of entries; \<open>to_excel\<close> is \<open>True\<close> when the
  workbook was written and \<open>False\<close> when writing raises; \<open>file_readable\<close> is whether
  \<^verbatim>\<open>open(file_path, "rb")\<close> succeeds.
\<close>

record 's env =
  API_KEY :: string
  BOT_TOKEN :: string
  CHAT_ID :: string
  get_chapters :: "json \<Rightarrow> params option \<Rightarrow> 's \<Rightarrow> chapter_item reply \<times> 's"
  get_entries :: "json \<Rightarrow> params option \<Rightarrow> 's \<Rightarrow> entry reply \<times> 's"
  now_tag :: "'s \<Rightarrow> string"
  to_excel :: "string \<Rightarrow> row list \<Rightarrow> 's \<Rightarrow> bool \<times> 's"
  file_readable :: "string \<Rightarrow> 's \<Rightarrow> bool"
  post_document :: "upload \<Rightarrow> 's \<Rightarrow> post_reply \<times> 's"

subsection \<open>\<^verbatim>\<open>cf_get_all\<close>\<close>

text \<open>\<^verbatim>\<open>body.get("next_page_url") or None\<close>.\<close>

definition next_url :: "'a body \<Rightarrow> json" where
  "next_url b =
     (case next_page_url b of
        None \<Rightarrow> JNull
      | Some v \<Rightarrow> if truthy v then v else JNull)"

text \<open>
  The \<^verbatim>\<open>while url:\<close> loop, with the loop variables \<^verbatim>\<open>url\<close>, \<^verbatim>\<open>params\<close> and \<^verbatim>\<open>items\<close> as
  arguments. The variable \<^verbatim>\<open>url\<close> holds whatever the last body gave, so it is a \<open>json\<close>.
  Nothing bounds the number of rounds: the loop is a partial function.
\<close>

partial_function (option) cf_get_loop ::
  "(json \<Rightarrow> params option \<Rightarrow> 's \<Rightarrow> 'a reply \<times> 's) \<Rightarrow> json \<Rightarrow> params option \<Rightarrow> 'a list
     \<Rightarrow> 's world \<Rightarrow> ((error + 'a list) \<times> 's world) option"
where
  "cf_get_loop get url params items w =
     (if truthy url then
        (case get url params (remote w) of
           (r, s) \<Rightarrow>
             (let w1 = \<lparr>trace = trace w @ [Http_get url params], remote = s\<rparr> in
              case r of
                Get_raises \<Rightarrow> Some (Inl Request_exception, w1)
              | Response code payload \<Rightarrow>
                  if is_error_status code then Some (Inl (HTTP_error code), w1)
                  else
                    (case payload of
                       None \<Rightarrow> Some (Inl Body_error, w1)
                     | Some b \<Rightarrow> cf_get_loop get (next_url b) None (items @ data b) w1)))
      else Some (Inr items, w))"

definition cf_get_all ::
  "(json \<Rightarrow> params option \<Rightarrow> 's \<Rightarrow> 'a reply \<times> 's) \<Rightarrow> string \<Rightarrow> params option
     \<Rightarrow> 's world \<Rightarrow> ((error + 'a list) \<times> 's world) option"
where
  "cf_get_all get path params w = cf_get_loop get (JStr (BASE_URL @ path)) params [] w"

subsection \<open>\<^verbatim>\<open>chapter_to_region\<close>\<close>

definition chapter_to_region :: "string \<Rightarrow> string" where
  "chapter_to_region name =
     (let lc = lower name in
      if lc = ''global festival'' then ''Other''
      else
        (case find (\<lambda>(region, countries). lc \<in> set countries) REGION_MAP of
           Some (region, countries) \<Rightarrow> region
         | None \<Rightarrow> ''EMEA''))"

subsection \<open>Data collection (section 4 of the script)\<close>

text \<open>
  \<^verbatim>\<open>chapters\<close> is a dict that keeps its insertion order, which \<^verbatim>\<open>sorted\<close> later sees: an
  association list. \<open>AList.update\<close> overwrites a key where it stands and appends a new
  key, as the dict does.
\<close>

type_synonym chapters = "(string \<times> chapter_meta) list"

text \<open>The body of the loop of \<^verbatim>\<open>fetch_chapters\<close>.\<close>

definition store_chapter :: "chapter_item \<Rightarrow> chapters \<Rightarrow> chapters" where
  "store_chapter ch chapters =
     (let nm = item_name_en_GB ch in
      AList.update (item_slug ch) \<lparr>meta_name = nm, meta_region = chapter_to_region nm\<rparr> chapters)"

definition fetch_chapters :: "'s env \<Rightarrow> 's world \<Rightarrow> ((error + chapters) \<times> 's world) option" where
  "fetch_chapters env w =
     (case cf_get_all (get_chapters env) ''/chapter''
             (Some [(''status'', JStr ''active''), (''per_page'', JNum 100)]) w of
        None \<Rightarrow> None
      | Some (Inl exc, w1) \<Rightarrow> Some (Inl exc, w1)
      | Some (Inr items, w1) \<Rightarrow>
          (let chapters = fold store_chapter items [] in
           Some (Inr chapters, emit (Log INFO (Loaded_chapters (length chapters))) w1)))"

definition gather_entries ::
  "'s env \<Rightarrow> string \<Rightarrow> 's world \<Rightarrow> ((error + entry list) \<times> 's world) option"
where
  "gather_entries env category_slug w =
     cf_get_all (get_entries env) ''/entry''
       (Some [(''category'', JStr category_slug), (''per_page'', JNum 100)])
       (emit (Log INFO (Pulling_entries category_slug)) w)"

text \<open>\<^verbatim>\<open>counts\<close> is only looked up by key: a map.\<close>

type_synonym counts = "string \<rightharpoonup> chapter_counts"

definition init_counts :: "chapters \<Rightarrow> counts" where
  "init_counts chapters =
     map_of (map (\<lambda>(slug, meta).
                    (slug, \<lparr>c13_sub = 0, c13_prog = 0, c18_sub = 0, c18_prog = 0\<rparr>)) chapters)"

text \<open>The bodies of the two loops of \<^verbatim>\<open>build_counts\<close>.\<close>

definition count_13_17 :: "entry \<Rightarrow> counts \<Rightarrow> counts" where
  "count_13_17 e counts =
     (let ch = entry_chapter_slug e; st = entry_status e in
      case counts ch of
        None \<Rightarrow> counts
      | Some c \<Rightarrow>
          counts(ch \<mapsto> (if st = ''submitted'' then c\<lparr>c13_sub := c13_sub c + 1\<rparr>
                         else c\<lparr>c13_prog := c13_prog c + 1\<rparr>)))"

definition count_above18 :: "entry \<Rightarrow> counts \<Rightarrow> counts" where
  "count_above18 e counts =
     (let ch = entry_chapter_slug e; st = entry_status e in
      case counts ch of
        None \<Rightarrow> counts
      | Some c \<Rightarrow>
          counts(ch \<mapsto> (if st = ''submitted'' then c\<lparr>c18_sub := c18_sub c + 1\<rparr>
                         else c\<lparr>c18_prog := c18_prog c + 1\<rparr>)))"

definition build_counts ::
  "'s env \<Rightarrow> chapters \<Rightarrow> 's world \<Rightarrow> ((error + counts) \<times> 's world) option"
where
  "build_counts env chapters w =
     (let counts = init_counts chapters in
      case gather_entries env CATEGORY_SLUGS_13_17 w of
        None \<Rightarrow> None
      | Some (Inl exc, w1) \<Rightarrow> Some (Inl exc, w1)
      | Some (Inr es13, w1) \<Rightarrow>
          (let counts = fold count_13_17 es13 counts in
           case gather_entries env CATEGORY_SLUGS_above18 w1 of
             None \<Rightarrow> None
           | Some (Inl exc, w2) \<Rightarrow> Some (Inl exc, w2)
           | Some (Inr es18, w2) \<Rightarrow> Some (Inr (fold count_above18 es18 counts), w2)))"

subsection \<open>The report rows (the loop of \<^verbatim>\<open>main\<close>)\<close>

text \<open>The key of \<^verbatim>\<open>sorted\<close>: \<^verbatim>\<open>(kv[1]["region"], kv[1]["name"].lower())\<close>.\<close>

definition row_key :: "string \<times> chapter_meta \<Rightarrow> string \<times> string" where
  "row_key kv = (meta_region (snd kv), lower (meta_name (snd kv)))"

text \<open>
  The dict appended for \<^verbatim>\<open>(i, (slug, meta))\<close> once \<^verbatim>\<open>c = counts[slug]\<close> is there;
  \<^verbatim>\<open>sum(c.values())\<close> is the sum of the four counters.
\<close>

definition make_row :: "nat \<Rightarrow> chapter_meta \<Rightarrow> chapter_counts \<Rightarrow> row" where
  "make_row i meta c =
     \<lparr>No = i,
      Region = meta_region meta,
      Chapter_Name = meta_name meta,
      Years_13_17_Submitted = c13_sub c,
      Years_13_17_In_Progress = c13_prog c,
      Above_18_Years_Submitted = c18_sub c,
      Above_18_Years_In_Progress = c18_prog c,
      Total = c13_sub c + c13_prog c + c18_sub c + c18_prog c\<rparr>"

text \<open>The loop over the enumerated, sorted items; \<^verbatim>\<open>counts[slug]\<close> raises on a missing key.\<close>

fun make_rows :: "counts \<Rightarrow> (nat \<times> string \<times> chapter_meta) list \<Rightarrow> error + row list" where
  "make_rows counts [] = Inr []"
| "make_rows counts ((i, slug, meta) # rest) =
     (case counts slug of
        None \<Rightarrow> Inl (Key_error slug)
      | Some c \<Rightarrow>
          (case make_rows counts rest of
             Inl exc \<Rightarrow> Inl exc
           | Inr rows \<Rightarrow> Inr (make_row i meta c # rows)))"

text \<open>
  \<^verbatim>\<open>sorted\<close> is stable, as \<open>sort_key\<close> is; \<^verbatim>\<open>enumerate(..., start=1)\<close> is \<open>enumerate 1\<close>.
\<close>

definition compose_rows :: "chapters \<Rightarrow> counts \<Rightarrow> error + row list" where
  "compose_rows chapters counts = make_rows counts (enumerate 1 (sort_key row_key chapters))"

subsection \<open>File creation and Telegram send (section 5 of the script)\<close>

text \<open>
  \<open>now_tag\<close> is \<^verbatim>\<open>datetime.now(LOCAL_TZ).strftime("%Y%m%d")\<close>. The trace records the call of
  the workbook writer with the path and the rows.
\<close>

definition make_workbook :: "'s env \<Rightarrow> row list \<Rightarrow> 's world \<Rightarrow> (error + string) \<times> 's world" where
  "make_workbook env rows w =
     (let tag = now_tag env (remote w);
          file_path = ''award_force_stage1_'' @ tag @ ''.xlsx'' in
      case to_excel env file_path rows (remote w) of
        (written, s) \<Rightarrow>
          (let w1 = \<lparr>trace = trace w @ [Excel_write file_path rows], remote = s\<rparr> in
           if written then (Inr file_path, w1) else (Inl Workbook_error, w1)))"

text \<open>
  \<^verbatim>\<open>file_path.name\<close>: the last component of the path, the components being what stands
  between slashes, the empty ones and \<^verbatim>\<open>.\<close> left out. A \<^verbatim>\<open>Path\<close> is modelled by the
  string it is built from.
\<close>

fun split_path :: "string \<Rightarrow> string \<Rightarrow> string list" where
  "split_path cur [] = [cur]"
| "split_path cur (c # cs) =
     (if c = CHR ''/'' then cur # split_path [] cs else split_path (cur @ [c]) cs)"

definition path_name :: "string \<Rightarrow> string" where
  "path_name p =
     (case filter (\<lambda>part. part \<noteq> [] \<and> part \<noteq> ''.'') (split_path [] p) of
        [] \<Rightarrow> []
      | part # parts \<Rightarrow> last (part # parts))"

definition send_to_telegram :: "'s env \<Rightarrow> string \<Rightarrow> 's world \<Rightarrow> (error + unit) \<times> 's world" where
  "send_to_telegram env file_path w =
     (if \<not> (BOT_TOKEN env \<noteq> [] \<and> CHAT_ID env \<noteq> []) then
        (Inr (), emit (Log ERROR Telegram_credentials_missing) w)
      else
        (let url = ''https://api.telegram.org/bot'' @ BOT_TOKEN env @ ''/sendDocument'' in
         if \<not> file_readable env file_path (remote w) then (Inl File_error, w)
         else
           (let doc = \<lparr>post_url = url, chat_id = CHAT_ID env,
                       caption = path_name file_path,
                       document_name = path_name file_path,
                       document_path = file_path\<rparr> in
            case post_document env doc (remote w) of
              (resp, s) \<Rightarrow>
                (let w1 = \<lparr>trace = trace w @ [Http_post doc], remote = s\<rparr> in
                 case resp of
                   Post_raises \<Rightarrow> (Inl Upload_exception, w1)
                 | Post_response code detail \<Rightarrow>
                     if \<not> is_error_status code then
                       (Inr (),
                        emit (Log INFO (Sent_to_telegram (path_name file_path) (CHAT_ID env))) w1)
                     else (Inr (), emit (Log ERROR (Telegram_upload_failed detail)) w1)))))"

subsection \<open>\<^verbatim>\<open>main\<close>\<close>

text \<open>The body of the \<^verbatim>\<open>try\<close> statement: \<open>Inl\<close> is the exception that leaves it.\<close>

definition main_try :: "'s env \<Rightarrow> 's world \<Rightarrow> ((error + unit) \<times> 's world) option" where
  "main_try env w =
     (case fetch_chapters env w of
        None \<Rightarrow> None
      | Some (Inl exc, w1) \<Rightarrow> Some (Inl exc, w1)
      | Some (Inr chapters, w1) \<Rightarrow>
          (case build_counts env chapters w1 of
             None \<Rightarrow> None
           | Some (Inl exc, w2) \<Rightarrow> Some (Inl exc, w2)
           | Some (Inr counts, w2) \<Rightarrow>
               (case compose_rows chapters counts of
                  Inl exc \<Rightarrow> Some (Inl exc, w2)
                | Inr rows \<Rightarrow>
                    (case make_workbook env rows w2 of
                       (Inl exc, w3) \<Rightarrow> Some (Inl exc, w3)
                     | (Inr wb_path, w3) \<Rightarrow>
                         Some (send_to_telegram env wb_path
                                 (emit (Log INFO (Workbook_saved wb_path)) w3))))))"

text \<open>
  \<^verbatim>\<open>main\<close>: the guard on the API key, the start marker, the \<^verbatim>\<open>try\<close> with its
  \<^verbatim>\<open>except Exception\<close> (\<^verbatim>\<open>logging.exception\<close> logs at level ERROR), the end marker.
  \<open>None\<close>: the run never ends.
\<close>

definition main :: "'s env \<Rightarrow> 's world \<Rightarrow> 's world option" where
  "main env w =
     (if API_KEY env = [] then Some (emit (Log ERROR Api_key_missing) w)
      else
        (case main_try env (emit (Log INFO Run_start) w) of
           None \<Rightarrow> None
         | Some (Inl exc, w1) \<Rightarrow>
             Some (emit (Log INFO Run_end) (emit (Log ERROR (Run_failed exc)) w1))
         | Some (Inr u, w1) \<Rightarrow> Some (emit (Log INFO Run_end) w1)))"

section \<open>Vocabulary of the properties\<close>

text \<open>
  \<open>served get url params s pages = Some s'\<close>: asked for \<open>url\<close> with \<open>params\<close> in state
  \<open>s\<close>, and then for the next page named by each body in turn (with no parameters),
  the server answers with responses that carry no error status and whose bodies are
  \<open>pages\<close>, in this order, and is left in state \<open>s'\<close>.
\<close>

fun served ::
  "(json \<Rightarrow> params option \<Rightarrow> 's \<Rightarrow> 'a reply \<times> 's) \<Rightarrow> json \<Rightarrow> params option \<Rightarrow> 's
     \<Rightarrow> 'a body list \<Rightarrow> 's option"
where
  "served get url params s [] = Some s"
| "served get url params s (p # ps) =
     (case get url params s of
        (Response code (Some b), s') \<Rightarrow>
          if \<not> is_error_status code \<and> b = p then served get (next_url p) None s' ps
          else None
      | (Response code None, s') \<Rightarrow> None
      | (Get_raises, s') \<Rightarrow> None)"

text \<open>
  The requests that fetch \<open>pages\<close>: the first for \<open>url\<close> with \<open>params\<close>, each later one for
  the next page named by the body before it, with no parameters.
\<close>

fun page_requests :: "json \<Rightarrow> params option \<Rightarrow> 'a body list \<Rightarrow> event list" where
  "page_requests url params [] = []"
| "page_requests url params (p # ps) = Http_get url params # page_requests (next_url p) None ps"

text \<open>The URL and the parameters of the request that follows the pages fetched so far.\<close>

definition url_after :: "json \<Rightarrow> 'a body list \<Rightarrow> json" where
  "url_after url pages = (if pages = [] then url else next_url (last pages))"

definition params_after :: "params option \<Rightarrow> 'a body list \<Rightarrow> params option" where
  "params_after params pages = (if pages = [] then params else None)"

text \<open>
  A server that answers the \<open>n\<close>-th request it receives with the \<open>n\<close>-th body of a
  sequence, whatever is asked; its state is the number of requests answered so far.
\<close>

definition scripted :: "(nat \<Rightarrow> 'a body) \<Rightarrow> json \<Rightarrow> params option \<Rightarrow> nat \<Rightarrow> 'a reply \<times> nat" where
  "scripted pages url params n = (Response 200 (Some (pages n)), Suc n)"

text \<open>The five region tags.\<close>

definition region_tags :: "string set" where
  "region_tags = {''AMR'', ''APJ'', ''EMEA'', ''Other'', ''PRC''}"

text \<open>The position of a region tag in the list AMR, APJ, EMEA, Other, PRC.\<close>

definition region_rank :: "string \<Rightarrow> nat" where
  "region_rank r =
     (if r = ''AMR'' then 0 else if r = ''APJ'' then 1 else if r = ''EMEA'' then 2
      else if r = ''Other'' then 3 else 4)"

text \<open>The events that make or deliver an artifact.\<close>

fun is_delivery :: "event \<Rightarrow> bool" where
  "is_delivery (Excel_write file_path rows) = True"
| "is_delivery (Http_post doc) = True"
| "is_delivery (Http_get url params) = False"
| "is_delivery (Log lvl msg) = False"

text \<open>The requests.\<close>

fun is_get :: "event \<Rightarrow> bool" where
  "is_get (Http_get url params) = True"
| "is_get (Excel_write file_path rows) = False"
| "is_get (Http_post doc) = False"
| "is_get (Log lvl msg) = False"

text \<open>The document that \<^verbatim>\<open>send_to_telegram\<close> posts for a file.\<close>

definition telegram_document :: "'s env \<Rightarrow> string \<Rightarrow> upload" where
  "telegram_document env file_path =
     \<lparr>post_url = ''https://api.telegram.org/bot'' @ BOT_TOKEN env @ ''/sendDocument'',
      chat_id = CHAT_ID env,
      caption = path_name file_path,
      document_name = path_name file_path,
      document_path = file_path\<rparr>"

subsection \<open>Fixtures\<close>

text \<open>
  A remote API with two chapters and four entries, the entries of the first category on
  two pages; a workbook writer and an upload that succeed.
\<close>

definition fixture_get_chapters :: "json \<Rightarrow> params option \<Rightarrow> nat \<Rightarrow> chapter_item reply \<times> nat" where
  "fixture_get_chapters url params s =
     (Response 200
        (Some \<lparr>data = [\<lparr>item_slug = ''A'', item_name_en_GB = ''Brazil''\<rparr>,
                       \<lparr>item_slug = ''B'', item_name_en_GB = ''China''\<rparr>],
               next_page_url = None\<rparr>),
      Suc s)"

definition fixture_get_entries :: "json \<Rightarrow> params option \<Rightarrow> nat \<Rightarrow> entry reply \<times> nat" where
  "fixture_get_entries url params s =
     (if params = Some [(''category'', JStr ''ZLgyzemp''), (''per_page'', JNum 100)] then
        (Response 200
           (Some \<lparr>data = [\<lparr>entry_chapter_slug = ''A'', entry_status = ''submitted''\<rparr>,
                          \<lparr>entry_chapter_slug = ''A'', entry_status = ''pending''\<rparr>],
                  next_page_url = Some (JStr ''https://api.us.cr4ce.com/entry?page=2'')\<rparr>),
         Suc s)
      else if url = JStr ''https://api.us.cr4ce.com/entry?page=2'' then
        (Response 200
           (Some \<lparr>data = [\<lparr>entry_chapter_slug = ''C'', entry_status = ''submitted''\<rparr>],
                  next_page_url = Some JNull\<rparr>),
         Suc s)
      else
        (Response 200
           (Some \<lparr>data = [\<lparr>entry_chapter_slug = ''B'', entry_status = ''submitted''\<rparr>],
                  next_page_url = Some (JStr [])\<rparr>),
         Suc s))"

definition fixture_env :: "nat env" where
  "fixture_env =
     \<lparr>API_KEY = ''key'', BOT_TOKEN = ''token'', CHAT_ID = ''42'',
      get_chapters = fixture_get_chapters,
      get_entries = fixture_get_entries,
      now_tag = (\<lambda>s. ''20250722''),
      to_excel = (\<lambda>file_path rows s. (True, s)),
      file_readable = (\<lambda>file_path s. True),
      post_document = (\<lambda>doc s. (Post_response 200 ''ok'', s))\<rparr>"

definition fixture_world :: "nat world" where
  "fixture_world = \<lparr>trace = [], remote = 0\<rparr>"

definition fixture_chapters :: chapters where
  "fixture_chapters =
     [(''A'', \<lparr>meta_name = ''Brazil'', meta_region = ''AMR''\<rparr>),
      (''B'', \<lparr>meta_name = ''China'', meta_region = ''PRC''\<rparr>)]"

text \<open>The three chapters of the sorting example.\<close>

definition fixture_three_chapters :: chapters where
  "fixture_three_chapters =
     [(''z'', \<lparr>meta_name = ''Zeta'', meta_region = ''AMR''\<rparr>),
      (''a'', \<lparr>meta_name = ''Alpha'', meta_region = ''AMR''\<rparr>),
      (''b'', \<lparr>meta_name = ''Beta'', meta_region = ''PRC''\<rparr>)]"

text \<open>
  Five chapters whose names sort in another order before they are lowercased (Z stands
  before a, and the capital E with acute, code point 201, before the small a with grave,
  code point 224), with counts that differ from chapter to chapter.
\<close>

definition fixture_mixed_chapters :: chapters where
  "fixture_mixed_chapters =
     [(''z'', \<lparr>meta_name = ''Zeta'', meta_region = ''AMR''\<rparr>),
      (''e'', \<lparr>meta_name = CHR 0xC9 # ''ire'', meta_region = ''EMEA''\<rparr>),
      (''b'', \<lparr>meta_name = ''Beta'', meta_region = ''PRC''\<rparr>),
      (''a'', \<lparr>meta_name = ''alpha'', meta_region = ''AMR''\<rparr>),
      (''l'', \<lparr>meta_name = CHR 0xE0 # ''land'', meta_region = ''EMEA''\<rparr>)]"

definition fixture_mixed_counts :: counts where
  "fixture_mixed_counts =
     map_of
       [(''z'', \<lparr>c13_sub = 1, c13_prog = 2, c18_sub = 3, c18_prog = 4\<rparr>),
        (''e'', \<lparr>c13_sub = 2, c13_prog = 0, c18_sub = 9, c18_prog = 0\<rparr>),
        (''b'', \<lparr>c13_sub = 0, c13_prog = 0, c18_sub = 8, c18_prog = 3\<rparr>),
        (''a'', \<lparr>c13_sub = 5, c13_prog = 0, c18_sub = 0, c18_prog = 1\<rparr>),
        (''l'', \<lparr>c13_sub = 0, c13_prog = 7, c18_sub = 0, c18_prog = 0\<rparr>)]"

text \<open>
  The entries of the fixture on one page per category, those of the first category in
  another order.
\<close>

definition fixture_get_entries_permuted :: "json \<Rightarrow> params option \<Rightarrow> unit \<Rightarrow> entry reply \<times> unit" where
  "fixture_get_entries_permuted url params s =
     (if params = Some [(''category'', JStr ''ZLgyzemp''), (''per_page'', JNum 100)] then
        (Response 200
           (Some \<lparr>data = [\<lparr>entry_chapter_slug = ''C'', entry_status = ''submitted''\<rparr>,
                          \<lparr>entry_chapter_slug = ''A'', entry_status = ''pending''\<rparr>,
                          \<lparr>entry_chapter_slug = ''A'', entry_status = ''submitted''\<rparr>],
                  next_page_url = None\<rparr>),
         s)
      else
        (Response 200
           (Some \<lparr>data = [\<lparr>entry_chapter_slug = ''B'', entry_status = ''submitted''\<rparr>],
                  next_page_url = None\<rparr>),
         s))"

definition fixture_env_permuted :: "unit env" where
  "fixture_env_permuted =
     \<lparr>API_KEY = ''key'', BOT_TOKEN = ''token'', CHAT_ID = ''42'',
      get_chapters = (\<lambda>url params s. (Get_raises, s)),
      get_entries = fixture_get_entries_permuted,
      now_tag = (\<lambda>s. ''20250722''),
      to_excel = (\<lambda>file_path rows s. (True, s)),
      file_readable = (\<lambda>file_path s. True),
      post_document = (\<lambda>doc s. (Post_response 200 ''ok'', s))\<rparr>"

text \<open>Five chapters, one of each region.\<close>

definition fixture_five_items :: "chapter_item list" where
  "fixture_five_items =
     [\<lparr>item_slug = ''cn'', item_name_en_GB = ''China''\<rparr>,
      \<lparr>item_slug = ''gf'', item_name_en_GB = ''Global Festival''\<rparr>,
      \<lparr>item_slug = ''de'', item_name_en_GB = ''Germany''\<rparr>,
      \<lparr>item_slug = ''in'', item_name_en_GB = ''India''\<rparr>,
      \<lparr>item_slug = ''br'', item_name_en_GB = ''Brazil''\<rparr>]"

text \<open>
  Three pages of 100, 100 and 7 records (the records are the numbers from 0 to 206), and
  a server whose every page names a next page.
\<close>

definition fixture_page :: "nat \<Rightarrow> nat body" where
  "fixture_page n =
     (if n = 0 then
        \<lparr>data = [0..<100],
         next_page_url = Some (JStr ''https://api.us.cr4ce.com/entry?page=2'')\<rparr>
      else if n = 1 then
        \<lparr>data = [100..<200],
         next_page_url = Some (JStr ''https://api.us.cr4ce.com/entry?page=3'')\<rparr>
      else \<lparr>data = [200..<207], next_page_url = None\<rparr>)"

definition fixture_cycle_get :: "json \<Rightarrow> params option \<Rightarrow> unit \<Rightarrow> entry reply \<times> unit" where
  "fixture_cycle_get url params s =
     (Response 200
        (Some \<lparr>data = [\<lparr>entry_chapter_slug = ''A'', entry_status = ''submitted''\<rparr>],
               next_page_url = Some (JStr ''https://api.us.cr4ce.com/entry?page=1'')\<rparr>),
      s)"

text \<open>The fixture with a second page of entries that answers with status 500.\<close>

definition fixture_env_failing :: "nat env" where
  "fixture_env_failing =
     fixture_env
       \<lparr>get_entries :=
          (\<lambda>url params s.
             if url = JStr ''https://api.us.cr4ce.com/entry?page=2'' then (Response 500 None, Suc s)
             else fixture_get_entries url params s)\<rparr>"

text \<open>The fixture with no API key.\<close>

definition fixture_env_no_key :: "nat env" where
  "fixture_env_no_key = fixture_env\<lparr>API_KEY := []\<rparr>"

text \<open>
  The fixture with an upload that raises, with an upload that the remote side refuses,
  and with no bot token.
\<close>

definition fixture_env_upload_raises :: "nat env" where
  "fixture_env_upload_raises = fixture_env\<lparr>post_document := (\<lambda>doc s. (Post_raises, s))\<rparr>"

definition fixture_env_upload_refused :: "nat env" where
  "fixture_env_upload_refused =
     fixture_env\<lparr>post_document := (\<lambda>doc s. (Post_response 403 ''Forbidden'', s))\<rparr>"

definition fixture_env_no_token :: "nat env" where
  "fixture_env_no_token = fixture_env\<lparr>BOT_TOKEN := []\<rparr>"

section \<open>Region classification\<close>

lemma lower_Nil: "lower [] = []"
  by (simp add: lower_def)

text \<open>
  C2. \<^verbatim>\<open>chapter_to_region\<close> is a function of the lowercased name alone: \<open>Other\<close> when it is
  \<open>global festival\<close>; otherwise the region whose country list has it as an element
  (the whole string, not a part of it), so every spelling that lowercases to a listed
  country gets that country's region; otherwise \<open>EMEA\<close>. The three capitalisations of
  \<open>global festival\<close> give \<open>Other\<close>.
\<close>

theorem chapter_to_region_classifies:
  "(lower name = ''global festival'' \<longrightarrow> chapter_to_region name = ''Other'')
   \<and> (\<forall>(region, countries) \<in> set REGION_MAP.
         lower name \<in> set countries \<longrightarrow> chapter_to_region name = region)
   \<and> (lower name \<noteq> ''global festival''
        \<and> (\<forall>(region, countries) \<in> set REGION_MAP. lower name \<notin> set countries)
        \<longrightarrow> chapter_to_region name = ''EMEA'')
   \<and> (lower name = lower name' \<longrightarrow> chapter_to_region name = chapter_to_region name')
   \<and> chapter_to_region ''Global Festival'' = ''Other''
   \<and> chapter_to_region ''global festival'' = ''Other''
   \<and> chapter_to_region ''GLOBAL FESTIVAL'' = ''Other''"
proof -
  have gf: "lower name = ''global festival'' \<longrightarrow> chapter_to_region name = ''Other''"
    by (simp add: chapter_to_region_def)
  have listed: "\<forall>(region, countries) \<in> set REGION_MAP.
      lower name \<in> set countries \<longrightarrow> chapter_to_region name = region"
    by (auto simp add: chapter_to_region_def REGION_MAP_def)
  have other: "lower name \<noteq> ''global festival''
      \<and> (\<forall>(region, countries) \<in> set REGION_MAP. lower name \<notin> set countries)
      \<longrightarrow> chapter_to_region name = ''EMEA''"
    by (simp add: chapter_to_region_def REGION_MAP_def)
  have same: "lower name = lower name' \<longrightarrow> chapter_to_region name = chapter_to_region name'"
    by (simp add: chapter_to_region_def)
  have ex1: "chapter_to_region ''Global Festival'' = ''Other''"
    by code_simp
  have ex2: "chapter_to_region ''global festival'' = ''Other''"
    by code_simp
  have ex3: "chapter_to_region ''GLOBAL FESTIVAL'' = ''Other''"
    by code_simp
  from gf listed other same ex1 ex2 ex3 show ?thesis
    by blast
qed

theorem chapter_to_region_classifies_witness:
  "lower ''InDiA'' = ''india''
   \<and> chapter_to_region ''InDiA'' = ''APJ''
   \<and> chapter_to_region ''InDiA'' = chapter_to_region ''india''
   \<and> chapter_to_region ''Indian Ocean'' = ''EMEA''"
proof -
  have l1: "lower ''InDiA'' = ''india''" and l2: "lower ''india'' = ''india''"
    and l3: "lower ''Indian Ocean'' = ''indian ocean''"
    by code_simp+
  from chapter_to_region_classifies [of "''InDiA''" "''india''"]
  have "\<forall>(region, countries) \<in> set REGION_MAP.
          lower ''InDiA'' \<in> set countries \<longrightarrow> chapter_to_region ''InDiA'' = region"
    and same: "lower ''InDiA'' = lower ''india''
          \<longrightarrow> chapter_to_region ''InDiA'' = chapter_to_region ''india''"
    by blast+
  then have apj: "chapter_to_region ''InDiA'' = ''APJ''"
    by (simp add: REGION_MAP_def l1)
  from chapter_to_region_classifies [of "''Indian Ocean''" "''x''"]
  have "lower ''Indian Ocean'' \<noteq> ''global festival''
        \<and> (\<forall>(region, countries) \<in> set REGION_MAP. lower ''Indian Ocean'' \<notin> set countries)
        \<longrightarrow> chapter_to_region ''Indian Ocean'' = ''EMEA''"
    by blast
  then have emea: "chapter_to_region ''Indian Ocean'' = ''EMEA''"
    by (simp add: REGION_MAP_def l3)
  from l1 l2 apj same emea show ?thesis
    by simp
qed

section \<open>Counting entries\<close>

lemma init_counts_apply:
  "init_counts chapters slug =
     (if slug \<in> fst ` set chapters
      then Some \<lparr>c13_sub = 0, c13_prog = 0, c18_sub = 0, c18_prog = 0\<rparr> else None)"
  unfolding init_counts_def
  by (induction chapters) auto

lemma count_13_17_apply:
  "count_13_17 e counts slug =
     map_option
       (\<lambda>c. if entry_chapter_slug e = slug
            then (if entry_status e = ''submitted'' then c\<lparr>c13_sub := c13_sub c + 1\<rparr>
                  else c\<lparr>c13_prog := c13_prog c + 1\<rparr>)
            else c)
       (counts slug)"
  by (cases "counts (entry_chapter_slug e)"; cases "counts slug")
    (auto simp add: count_13_17_def Let_def)

lemma count_above18_apply:
  "count_above18 e counts slug =
     map_option
       (\<lambda>c. if entry_chapter_slug e = slug
            then (if entry_status e = ''submitted'' then c\<lparr>c18_sub := c18_sub c + 1\<rparr>
                  else c\<lparr>c18_prog := c18_prog c + 1\<rparr>)
            else c)
       (counts slug)"
  by (cases "counts (entry_chapter_slug e)"; cases "counts slug")
    (auto simp add: count_above18_def Let_def)

lemma fold_count_13_17:
  "fold count_13_17 es counts slug =
     map_option
       (\<lambda>c. c\<lparr>c13_sub := c13_sub c + length (filter (\<lambda>e. entry_chapter_slug e = slug \<and> entry_status e = ''submitted'') es),
              c13_prog := c13_prog c + length (filter (\<lambda>e. entry_chapter_slug e = slug \<and> entry_status e \<noteq> ''submitted'') es)\<rparr>)
       (counts slug)"
proof (induction es arbitrary: counts)
  case Nil
  then show ?case by (cases "counts slug") simp_all
next
  case (Cons e es)
  have "fold count_13_17 (e # es) counts slug = fold count_13_17 es (count_13_17 e counts) slug"
    by simp
  also have "\<dots> =
     map_option
       (\<lambda>c. c\<lparr>c13_sub := c13_sub c + length (filter (\<lambda>e. entry_chapter_slug e = slug \<and> entry_status e = ''submitted'') es),
              c13_prog := c13_prog c + length (filter (\<lambda>e. entry_chapter_slug e = slug \<and> entry_status e \<noteq> ''submitted'') es)\<rparr>)
       (count_13_17 e counts slug)"
    by (rule Cons.IH)
  also have "\<dots> =
     map_option
       (\<lambda>c. c\<lparr>c13_sub := c13_sub c + length (filter (\<lambda>e. entry_chapter_slug e = slug \<and> entry_status e = ''submitted'') (e # es)),
              c13_prog := c13_prog c + length (filter (\<lambda>e. entry_chapter_slug e = slug \<and> entry_status e \<noteq> ''submitted'') (e # es))\<rparr>)
       (counts slug)"
    by (cases "counts slug") (simp_all add: count_13_17_apply)
  finally show ?case .
qed

lemma fold_count_above18:
  "fold count_above18 es counts slug =
     map_option
       (\<lambda>c. c\<lparr>c18_sub := c18_sub c + length (filter (\<lambda>e. entry_chapter_slug e = slug \<and> entry_status e = ''submitted'') es),
              c18_prog := c18_prog c + length (filter (\<lambda>e. entry_chapter_slug e = slug \<and> entry_status e \<noteq> ''submitted'') es)\<rparr>)
       (counts slug)"
proof (induction es arbitrary: counts)
  case Nil
  then show ?case by (cases "counts slug") simp_all
next
  case (Cons e es)
  have "fold count_above18 (e # es) counts slug = fold count_above18 es (count_above18 e counts) slug"
    by simp
  also have "\<dots> =
     map_option
       (\<lambda>c. c\<lparr>c18_sub := c18_sub c + length (filter (\<lambda>e. entry_chapter_slug e = slug \<and> entry_status e = ''submitted'') es),
              c18_prog := c18_prog c + length (filter (\<lambda>e. entry_chapter_slug e = slug \<and> entry_status e \<noteq> ''submitted'') es)\<rparr>)
       (count_above18 e counts slug)"
    by (rule Cons.IH)
  also have "\<dots> =
     map_option
       (\<lambda>c. c\<lparr>c18_sub := c18_sub c + length (filter (\<lambda>e. entry_chapter_slug e = slug \<and> entry_status e = ''submitted'') (e # es)),
              c18_prog := c18_prog c + length (filter (\<lambda>e. entry_chapter_slug e = slug \<and> entry_status e \<noteq> ''submitted'') (e # es))\<rparr>)
       (counts slug)"
    by (cases "counts slug") (simp_all add: count_above18_apply)
  finally show ?case .
qed

lemma filter_length_mset:
  "mset xs = mset ys \<Longrightarrow> length (filter P xs) = length (filter P ys)"
proof -
  assume "mset xs = mset ys"
  then have "size (filter_mset P (mset xs)) = size (filter_mset P (mset ys))" by simp
  then show ?thesis by (simp only: mset_filter [symmetric] size_mset)
qed

lemma passes_commute:
  "fold count_above18 es18 (fold count_13_17 es13 counts) =
   fold count_13_17 es13 (fold count_above18 es18 counts)"
proof (rule ext)
  fix slug
  show "fold count_above18 es18 (fold count_13_17 es13 counts) slug =
        fold count_13_17 es13 (fold count_above18 es18 counts) slug"
    by (cases "counts slug") (simp_all add: fold_count_13_17 fold_count_above18)
qed

lemma pass_13_17_perm:
  "mset es = mset es' \<Longrightarrow> fold count_13_17 es counts = fold count_13_17 es' counts"
  by (rule ext) (simp add: fold_count_13_17 filter_length_mset [of es es'])

lemma pass_above18_perm:
  "mset es = mset es' \<Longrightarrow> fold count_above18 es counts = fold count_above18 es' counts"
  by (rule ext) (simp add: fold_count_above18 filter_length_mset [of es es'])

lemma build_counts_ok:
  assumes "gather_entries env CATEGORY_SLUGS_13_17 w = Some (Inr es13, w1)"
    and "gather_entries env CATEGORY_SLUGS_above18 w1 = Some (Inr es18, w2)"
  shows "build_counts env chapters w =
     Some (Inr (fold count_above18 es18 (fold count_13_17 es13 (init_counts chapters))), w2)"
  using assms by (simp add: build_counts_def)

lemma tally_closed_form:
  "fold count_above18 es18 (fold count_13_17 es13 (init_counts chapters)) slug =
     (if slug \<in> fst ` set chapters then
        Some \<lparr>c13_sub = length (filter (\<lambda>e. entry_chapter_slug e = slug \<and> entry_status e = ''submitted'') es13),
              c13_prog = length (filter (\<lambda>e. entry_chapter_slug e = slug \<and> entry_status e \<noteq> ''submitted'') es13),
              c18_sub = length (filter (\<lambda>e. entry_chapter_slug e = slug \<and> entry_status e = ''submitted'') es18),
              c18_prog = length (filter (\<lambda>e. entry_chapter_slug e = slug \<and> entry_status e \<noteq> ''submitted'') es18)\<rparr>
      else None)"
  by (simp add: fold_count_above18 fold_count_13_17 init_counts_apply)

lemma count_13_17_known:
  "counts (entry_chapter_slug e) = Some c \<Longrightarrow>
   count_13_17 e counts =
     counts(entry_chapter_slug e \<mapsto>
       (if entry_status e = ''submitted'' then c\<lparr>c13_sub := c13_sub c + 1\<rparr>
        else c\<lparr>c13_prog := c13_prog c + 1\<rparr>))"
  by (simp add: count_13_17_def)

lemma count_above18_known:
  "counts (entry_chapter_slug e) = Some c \<Longrightarrow>
   count_above18 e counts =
     counts(entry_chapter_slug e \<mapsto>
       (if entry_status e = ''submitted'' then c\<lparr>c18_sub := c18_sub c + 1\<rparr>
        else c\<lparr>c18_prog := c18_prog c + 1\<rparr>))"
  by (simp add: count_above18_def)

lemma count_unknown:
  "counts (entry_chapter_slug e) = None \<Longrightarrow>
   count_13_17 e counts = counts \<and> count_above18 e counts = counts"
  by (simp add: count_13_17_def count_above18_def)

text \<open>
  C1. \<^verbatim>\<open>build_counts\<close> starts from a count record of four zeros for every slug of
  \<open>chapters\<close> and for no other slug. An entry whose chapter slug has a count record
  adds one to exactly one counter of that record and changes nothing else: in the first
  pass \<open>c13_sub\<close> when its status is the string \<open>submitted\<close> and \<open>c13_prog\<close> otherwise, in
  the second pass \<open>c18_sub\<close> or \<open>c18_prog\<close> in the same way. An entry whose chapter slug
  has no count record leaves the counts as they are, and nothing is raised. So when the
  two fetches return the entries \<open>es13\<close> and \<open>es18\<close>, \<^verbatim>\<open>build_counts\<close> returns, for every
  slug of \<open>chapters\<close>, the four numbers of entries of that slug by pass and by status, and
  no record for any other slug.
\<close>

theorem build_counts_tallies:
  "(\<forall>slug. init_counts chapters slug =
       (if slug \<in> fst ` set chapters
        then Some \<lparr>c13_sub = 0, c13_prog = 0, c18_sub = 0, c18_prog = 0\<rparr> else None))
   \<and> (\<forall>c. counts (entry_chapter_slug e) = Some c \<longrightarrow>
         count_13_17 e counts =
           counts(entry_chapter_slug e \<mapsto>
             (if entry_status e = ''submitted'' then c\<lparr>c13_sub := c13_sub c + 1\<rparr>
              else c\<lparr>c13_prog := c13_prog c + 1\<rparr>))
         \<and> count_above18 e counts =
           counts(entry_chapter_slug e \<mapsto>
             (if entry_status e = ''submitted'' then c\<lparr>c18_sub := c18_sub c + 1\<rparr>
              else c\<lparr>c18_prog := c18_prog c + 1\<rparr>)))
   \<and> (counts (entry_chapter_slug e) = None \<longrightarrow>
         count_13_17 e counts = counts \<and> count_above18 e counts = counts)
   \<and> (gather_entries env CATEGORY_SLUGS_13_17 w = Some (Inr es13, w1)
        \<and> gather_entries env CATEGORY_SLUGS_above18 w1 = Some (Inr es18, w2) \<longrightarrow>
        (\<exists>final. build_counts env chapters w = Some (Inr final, w2)
           \<and> (\<forall>slug. final slug =
                 (if slug \<in> fst ` set chapters then
                    Some \<lparr>c13_sub = length (filter (\<lambda>e. entry_chapter_slug e = slug
                                                     \<and> entry_status e = ''submitted'') es13),
                          c13_prog = length (filter (\<lambda>e. entry_chapter_slug e = slug
                                                     \<and> entry_status e \<noteq> ''submitted'') es13),
                          c18_sub = length (filter (\<lambda>e. entry_chapter_slug e = slug
                                                     \<and> entry_status e = ''submitted'') es18),
                          c18_prog = length (filter (\<lambda>e. entry_chapter_slug e = slug
                                                     \<and> entry_status e \<noteq> ''submitted'') es18)\<rparr>
                  else None))))"
  using init_counts_apply [of chapters] count_13_17_known [of counts e]
    count_above18_known [of counts e] count_unknown [of counts e]
    build_counts_ok [of env w es13 w1 es18 w2 chapters]
    tally_closed_form [of es18 es13 chapters]
  by blast

lemmas fixture_simps =
  fixture_env_def fixture_world_def fixture_get_entries_def fixture_get_chapters_def
  CATEGORY_SLUGS_13_17_def CATEGORY_SLUGS_above18_def BASE_URL_def
  gather_entries_def cf_get_all_def emit_def cf_get_loop.simps is_error_status_def next_url_def

lemma fixture_gather_13_17:
  "gather_entries fixture_env CATEGORY_SLUGS_13_17 fixture_world =
     Some (Inr [\<lparr>entry_chapter_slug = ''A'', entry_status = ''submitted''\<rparr>,
                \<lparr>entry_chapter_slug = ''A'', entry_status = ''pending''\<rparr>,
                \<lparr>entry_chapter_slug = ''C'', entry_status = ''submitted''\<rparr>],
           \<lparr>trace =
              [Log INFO (Pulling_entries ''ZLgyzemp''),
               Http_get (JStr ''https://api.us.cr4ce.com/entry'')
                 (Some [(''category'', JStr ''ZLgyzemp''), (''per_page'', JNum 100)]),
               Http_get (JStr ''https://api.us.cr4ce.com/entry?page=2'') None],
            remote = 2\<rparr>)"
  by (simp add: fixture_simps)

lemma fixture_gather_above18:
  "gather_entries fixture_env CATEGORY_SLUGS_above18
     \<lparr>trace =
        [Log INFO (Pulling_entries ''ZLgyzemp''),
         Http_get (JStr ''https://api.us.cr4ce.com/entry'')
           (Some [(''category'', JStr ''ZLgyzemp''), (''per_page'', JNum 100)]),
         Http_get (JStr ''https://api.us.cr4ce.com/entry?page=2'') None],
      remote = 2\<rparr> =
     Some (Inr [\<lparr>entry_chapter_slug = ''B'', entry_status = ''submitted''\<rparr>],
           \<lparr>trace =
              [Log INFO (Pulling_entries ''ZLgyzemp''),
               Http_get (JStr ''https://api.us.cr4ce.com/entry'')
                 (Some [(''category'', JStr ''ZLgyzemp''), (''per_page'', JNum 100)]),
               Http_get (JStr ''https://api.us.cr4ce.com/entry?page=2'') None,
               Log INFO (Pulling_entries ''Kgwrlowa''),
               Http_get (JStr ''https://api.us.cr4ce.com/entry'')
                 (Some [(''category'', JStr ''Kgwrlowa''), (''per_page'', JNum 100)])],
            remote = 3\<rparr>)"
  by (simp add: fixture_simps)

theorem build_counts_tallies_witness:
  "\<exists>final w2. build_counts fixture_env fixture_chapters fixture_world = Some (Inr final, w2)
      \<and> final ''A'' = Some \<lparr>c13_sub = 1, c13_prog = 1, c18_sub = 0, c18_prog = 0\<rparr>
      \<and> final ''B'' = Some \<lparr>c13_sub = 0, c13_prog = 0, c18_sub = 1, c18_prog = 0\<rparr>
      \<and> final ''C'' = None"
proof -
  from build_counts_tallies [of fixture_chapters _ _ fixture_env fixture_world]
    fixture_gather_13_17 fixture_gather_above18
  obtain final w2 where run: "build_counts fixture_env fixture_chapters fixture_world = Some (Inr final, w2)"
    and final: "\<forall>slug. final slug =
        (if slug \<in> fst ` set fixture_chapters then
           Some \<lparr>c13_sub = length (filter (\<lambda>e. entry_chapter_slug e = slug \<and> entry_status e = ''submitted'')
                     [\<lparr>entry_chapter_slug = ''A'', entry_status = ''submitted''\<rparr>,
                      \<lparr>entry_chapter_slug = ''A'', entry_status = ''pending''\<rparr>,
                      \<lparr>entry_chapter_slug = ''C'', entry_status = ''submitted''\<rparr>]),
                 c13_prog = length (filter (\<lambda>e. entry_chapter_slug e = slug \<and> entry_status e \<noteq> ''submitted'')
                     [\<lparr>entry_chapter_slug = ''A'', entry_status = ''submitted''\<rparr>,
                      \<lparr>entry_chapter_slug = ''A'', entry_status = ''pending''\<rparr>,
                      \<lparr>entry_chapter_slug = ''C'', entry_status = ''submitted''\<rparr>]),
                 c18_sub = length (filter (\<lambda>e. entry_chapter_slug e = slug \<and> entry_status e = ''submitted'')
                     [\<lparr>entry_chapter_slug = ''B'', entry_status = ''submitted''\<rparr>]),
                 c18_prog = length (filter (\<lambda>e. entry_chapter_slug e = slug \<and> entry_status e \<noteq> ''submitted'')
                     [\<lparr>entry_chapter_slug = ''B'', entry_status = ''submitted''\<rparr>])\<rparr>
         else None)"
    by blast
  from final have "final ''A'' = Some \<lparr>c13_sub = 1, c13_prog = 1, c18_sub = 0, c18_prog = 0\<rparr>"
    and "final ''B'' = Some \<lparr>c13_sub = 0, c13_prog = 0, c18_sub = 1, c18_prog = 0\<rparr>"
    and "final ''C'' = None"
    by (simp_all add: fixture_chapters_def)
  with run show ?thesis by blast
qed

text \<open>
  C6. The counts that the two passes leave do not depend on the order of the entries
  within a pass (the entry lists are compared as multisets), the two passes commute on
  every counts mapping, and two runs of \<^verbatim>\<open>build_counts\<close> whose fetches return the same
  entries in different orders return the same counts.
\<close>

theorem build_counts_order_insensitive:
  "(mset es13 = mset es13' \<and> mset es18 = mset es18' \<longrightarrow>
      fold count_above18 es18 (fold count_13_17 es13 (init_counts chapters)) =
      fold count_above18 es18' (fold count_13_17 es13' (init_counts chapters)))
   \<and> fold count_above18 es18 (fold count_13_17 es13 counts) =
       fold count_13_17 es13 (fold count_above18 es18 counts)
   \<and> (gather_entries env CATEGORY_SLUGS_13_17 w = Some (Inr es13, w1)
        \<and> gather_entries env CATEGORY_SLUGS_above18 w1 = Some (Inr es18, w2)
        \<and> gather_entries env' CATEGORY_SLUGS_13_17 v = Some (Inr es13', v1)
        \<and> gather_entries env' CATEGORY_SLUGS_above18 v1 = Some (Inr es18', v2)
        \<and> mset es13 = mset es13' \<and> mset es18 = mset es18' \<longrightarrow>
        (\<exists>final. build_counts env chapters w = Some (Inr final, w2)
           \<and> build_counts env' chapters v = Some (Inr final, v2)))"
proof -
  have perm: "mset es13 = mset es13' \<and> mset es18 = mset es18' \<longrightarrow>
      fold count_above18 es18 (fold count_13_17 es13 (init_counts chapters)) =
      fold count_above18 es18' (fold count_13_17 es13' (init_counts chapters))"
    using pass_13_17_perm [of es13 es13' "init_counts chapters"]
      pass_above18_perm [of es18 es18' "fold count_13_17 es13' (init_counts chapters)"]
    by auto
  have swap: "fold count_above18 es18 (fold count_13_17 es13 counts) =
       fold count_13_17 es13 (fold count_above18 es18 counts)"
    by (rule passes_commute)
  have runs: "gather_entries env CATEGORY_SLUGS_13_17 w = Some (Inr es13, w1)
        \<and> gather_entries env CATEGORY_SLUGS_above18 w1 = Some (Inr es18, w2)
        \<and> gather_entries env' CATEGORY_SLUGS_13_17 v = Some (Inr es13', v1)
        \<and> gather_entries env' CATEGORY_SLUGS_above18 v1 = Some (Inr es18', v2)
        \<and> mset es13 = mset es13' \<and> mset es18 = mset es18' \<longrightarrow>
        (\<exists>final. build_counts env chapters w = Some (Inr final, w2)
           \<and> build_counts env' chapters v = Some (Inr final, v2))"
    using perm build_counts_ok [of env w es13 w1 es18 w2 chapters]
      build_counts_ok [of env' v es13' v1 es18' v2 chapters]
    by auto
  from perm swap runs show ?thesis by blast
qed

theorem build_counts_order_insensitive_witness:
  "\<exists>final w2 v2.
      build_counts fixture_env fixture_chapters fixture_world = Some (Inr final, w2)
      \<and> build_counts fixture_env_permuted fixture_chapters \<lparr>trace = [], remote = ()\<rparr>
          = Some (Inr final, v2)"
proof -
  have p13: "gather_entries fixture_env_permuted CATEGORY_SLUGS_13_17 \<lparr>trace = [], remote = ()\<rparr> =
     Some (Inr [\<lparr>entry_chapter_slug = ''C'', entry_status = ''submitted''\<rparr>,
                \<lparr>entry_chapter_slug = ''A'', entry_status = ''pending''\<rparr>,
                \<lparr>entry_chapter_slug = ''A'', entry_status = ''submitted''\<rparr>],
           \<lparr>trace =
              [Log INFO (Pulling_entries ''ZLgyzemp''),
               Http_get (JStr ''https://api.us.cr4ce.com/entry'')
                 (Some [(''category'', JStr ''ZLgyzemp''), (''per_page'', JNum 100)])],
            remote = ()\<rparr>)"
    by (simp add: fixture_simps fixture_env_permuted_def fixture_get_entries_permuted_def)
  have p18: "gather_entries fixture_env_permuted CATEGORY_SLUGS_above18
       \<lparr>trace =
              [Log INFO (Pulling_entries ''ZLgyzemp''),
               Http_get (JStr ''https://api.us.cr4ce.com/entry'')
                 (Some [(''category'', JStr ''ZLgyzemp''), (''per_page'', JNum 100)])],
            remote = ()\<rparr> =
     Some (Inr [\<lparr>entry_chapter_slug = ''B'', entry_status = ''submitted''\<rparr>],
           \<lparr>trace =
              [Log INFO (Pulling_entries ''ZLgyzemp''),
               Http_get (JStr ''https://api.us.cr4ce.com/entry'')
                 (Some [(''category'', JStr ''ZLgyzemp''), (''per_page'', JNum 100)]),
               Log INFO (Pulling_entries ''Kgwrlowa''),
               Http_get (JStr ''https://api.us.cr4ce.com/entry'')
                 (Some [(''category'', JStr ''Kgwrlowa''), (''per_page'', JNum 100)])],
            remote = ()\<rparr>)"
    by (simp add: fixture_simps fixture_env_permuted_def fixture_get_entries_permuted_def)
  have m: "mset [\<lparr>entry_chapter_slug = ''A'', entry_status = ''submitted''\<rparr>,
                \<lparr>entry_chapter_slug = ''A'', entry_status = ''pending''\<rparr>,
                \<lparr>entry_chapter_slug = ''C'', entry_status = ''submitted''\<rparr>] =
           mset [\<lparr>entry_chapter_slug = ''C'', entry_status = ''submitted''\<rparr>,
                \<lparr>entry_chapter_slug = ''A'', entry_status = ''pending''\<rparr>,
                \<lparr>entry_chapter_slug = ''A'', entry_status = ''submitted''\<rparr>]"
    by (simp add: add_mset_commute)
  from build_counts_order_insensitive [of _ _ _ _ fixture_chapters _ fixture_env fixture_world _ _
      fixture_env_permuted "\<lparr>trace = [], remote = ()\<rparr>"]
    fixture_gather_13_17 fixture_gather_above18 p13 p18 m
  show ?thesis by blast
qed

section \<open>The report rows\<close>

lemma make_rows_enumerate:
  "fst ` set xs \<subseteq> dom counts \<Longrightarrow>
   make_rows counts (enumerate n xs) =
     Inr (map (\<lambda>(i, slug, meta). make_row i meta (the (counts slug))) (enumerate n xs))"
  by (induction xs arbitrary: n) auto

lemma compose_rows_eq:
  assumes "fst ` set chapters \<subseteq> dom counts"
  shows "compose_rows chapters counts =
     Inr (map (\<lambda>(i, slug, meta). make_row i meta (the (counts slug)))
            (enumerate 1 (sort_key row_key chapters)))"
  unfolding compose_rows_def using assms by (intro make_rows_enumerate) simp

lemma make_rows_Inr:
  "make_rows counts xs = Inr rows \<Longrightarrow>
   rows = map (\<lambda>(i, slug, meta). make_row i meta (the (counts slug))) xs"
  by (induction xs arbitrary: rows) (auto split: option.splits sum.splits)

lemma map_No_rows:
  "map No (map (\<lambda>(i, slug, meta). make_row i meta (f slug)) (enumerate n xs)) = [n..<n + length xs]"
proof -
  have "map No (map (\<lambda>(i, slug, meta). make_row i meta (f slug)) (enumerate n xs))
        = map fst (enumerate n xs)"
    by (simp add: make_row_def case_prod_beta comp_def)
  then show ?thesis by simp
qed

lemma map_key_rows:
  "map (\<lambda>r. (Region r, lower (Chapter_Name r)))
     (map (\<lambda>(i, slug, meta). make_row i meta (f slug)) (enumerate n xs)) = map row_key xs"
  by (induction xs arbitrary: n) (auto simp add: make_row_def row_key_def split: prod.splits)

lemma map_cells_rows:
  "map (\<lambda>r. (Region r, Chapter_Name r))
     (map (\<lambda>(i, slug, meta). make_row i meta (f slug)) (enumerate n xs))
   = map (\<lambda>(slug, meta). (meta_region meta, meta_name meta)) xs"
  by (induction xs arbitrary: n) (auto simp add: make_row_def split: prod.splits)

lemma total_rows:
  "r \<in> set (map (\<lambda>(i, slug, meta). make_row i meta (f slug)) ys) \<Longrightarrow>
   Total r = Years_13_17_Submitted r + Years_13_17_In_Progress r
             + Above_18_Years_Submitted r + Above_18_Years_In_Progress r"
  by (auto simp add: make_row_def)

lemma row_key_eq:
  "row_key = (\<lambda>(slug, meta). (meta_region meta, lower (meta_name meta)))"
  by (rule ext) (simp add: row_key_def case_prod_beta)

lemma rows_carry_counts:
  assumes "fst ` set xs \<subseteq> dom counts"
  shows "list_all2
     (\<lambda>r (slug, meta).
        Region r = meta_region meta \<and> Chapter_Name r = meta_name meta
        \<and> counts slug =
            Some \<lparr>c13_sub = Years_13_17_Submitted r, c13_prog = Years_13_17_In_Progress r,
                  c18_sub = Above_18_Years_Submitted r,
                  c18_prog = Above_18_Years_In_Progress r\<rparr>)
     (map (\<lambda>(i, slug, meta). make_row i meta (the (counts slug))) (enumerate n xs)) xs"
  using assms
proof (induction xs arbitrary: n)
  case Nil
  then show ?case by simp
next
  case (Cons kv xs)
  obtain slug meta where kv: "kv = (slug, meta)" by (cases kv)
  with Cons.prems obtain c where c: "counts slug = Some c" by auto
  from Cons.prems have "fst ` set xs \<subseteq> dom counts" by simp
  then have rest: "list_all2
     (\<lambda>r (slug, meta).
        Region r = meta_region meta \<and> Chapter_Name r = meta_name meta
        \<and> counts slug =
            Some \<lparr>c13_sub = Years_13_17_Submitted r, c13_prog = Years_13_17_In_Progress r,
                  c18_sub = Above_18_Years_Submitted r,
                  c18_prog = Above_18_Years_In_Progress r\<rparr>)
     (map (\<lambda>(i, slug, meta). make_row i meta (the (counts slug))) (enumerate (Suc n) xs)) xs"
    by (rule Cons.IH)
  with kv c show ?case by (simp add: make_row_def)
qed

text \<open>
  C3. When \<open>counts\<close> has a record for every slug of \<open>chapters\<close>, the rows are composed
  without an error, one per chapter; they are sorted ascending by the pair (region,
  lowercased chapter name); their numbers are 1, 2, ..., N in this order; the total of
  every row is the sum of its four counters; and the rows carry the regions and names
  of the chapters, each as often as it occurs. More precisely the rows stand, one by one,
  for the chapters put in an order that is a rearrangement of \<open>chapters\<close>, sorted by that
  pair, with the chapters of equal pairs left in the order of \<open>chapters\<close>: every row has
  the region and the name of its chapter and the four counters that \<open>counts\<close> holds for
  the slug of that chapter. The witness is the example of the three chapters Zeta (AMR),
  Alpha (AMR), Beta (PRC), whose rows are Alpha, Zeta, Beta, numbered 1, 2, 3, and a
  second mapping with names that sort otherwise before they are lowercased and with
  counts that differ from chapter to chapter.
\<close>

theorem compose_rows_sorted_numbered:
  assumes "fst ` set chapters \<subseteq> dom counts"
  shows "\<exists>rows ordered. compose_rows chapters counts = Inr rows
           \<and> length rows = length chapters
           \<and> sorted (map (\<lambda>r. (Region r, lower (Chapter_Name r))) rows)
           \<and> map No rows = [1..<Suc (length chapters)]
           \<and> (\<forall>r \<in> set rows.
                 Total r = Years_13_17_Submitted r + Years_13_17_In_Progress r
                           + Above_18_Years_Submitted r + Above_18_Years_In_Progress r)
           \<and> mset (map (\<lambda>r. (Region r, Chapter_Name r)) rows)
               = mset (map (\<lambda>(slug, meta). (meta_region meta, meta_name meta)) chapters)
           \<and> mset ordered = mset chapters
           \<and> sorted (map (\<lambda>(slug, meta). (meta_region meta, lower (meta_name meta))) ordered)
           \<and> (\<forall>k. filter (\<lambda>(slug, meta). (meta_region meta, lower (meta_name meta)) = k) ordered
                  = filter (\<lambda>(slug, meta). (meta_region meta, lower (meta_name meta)) = k)
                      chapters)
           \<and> list_all2
                (\<lambda>r (slug, meta).
                   Region r = meta_region meta \<and> Chapter_Name r = meta_name meta
                   \<and> counts slug =
                       Some \<lparr>c13_sub = Years_13_17_Submitted r,
                             c13_prog = Years_13_17_In_Progress r,
                             c18_sub = Above_18_Years_Submitted r,
                             c18_prog = Above_18_Years_In_Progress r\<rparr>)
                rows ordered"
proof -
  let ?ordered = "sort_key row_key chapters"
  let ?rows = "map (\<lambda>(i, slug, meta). make_row i meta (the (counts slug)))
                 (enumerate 1 ?ordered)"
  have eq: "compose_rows chapters counts = Inr ?rows"
    using assms by (rule compose_rows_eq)
  have len: "length ?rows = length chapters"
    by simp
  have srt: "sorted (map (\<lambda>r. (Region r, lower (Chapter_Name r))) ?rows)"
    by (simp only: map_key_rows sorted_sort_key)
  have num: "map No ?rows = [1..<Suc (length chapters)]"
    by (simp only: map_No_rows length_sort plus_1_eq_Suc)
  have tot: "\<forall>r \<in> set ?rows.
      Total r = Years_13_17_Submitted r + Years_13_17_In_Progress r
                + Above_18_Years_Submitted r + Above_18_Years_In_Progress r"
    by (auto simp add: make_row_def)
  have "mset (map (\<lambda>(slug, meta). (meta_region meta, meta_name meta)) ?ordered)
        = mset (map (\<lambda>(slug, meta). (meta_region meta, meta_name meta)) chapters)"
    by simp
  then have cells: "mset (map (\<lambda>r. (Region r, Chapter_Name r)) ?rows)
      = mset (map (\<lambda>(slug, meta). (meta_region meta, meta_name meta)) chapters)"
    by (simp only: map_cells_rows)
  have perm: "mset ?ordered = mset chapters"
    by simp
  have "sorted (map row_key ?ordered)"
    by (rule sorted_sort_key)
  then have osrt: "sorted (map (\<lambda>(slug, meta). (meta_region meta, lower (meta_name meta)))
                            ?ordered)"
    by (simp only: row_key_eq)
  have key_split: "(\<lambda>(slug, meta). (meta_region meta, lower (meta_name meta)) = k)
                   = (\<lambda>kv. row_key kv = k)" for k
    by (rule ext) (simp add: row_key_def case_prod_beta)
  have stable:
    "\<forall>k. filter (\<lambda>(slug, meta). (meta_region meta, lower (meta_name meta)) = k) ?ordered
         = filter (\<lambda>(slug, meta). (meta_region meta, lower (meta_name meta)) = k) chapters"
    unfolding key_split sort_key_stable by (intro allI refl)
  from assms have "fst ` set ?ordered \<subseteq> dom counts"
    by simp
  then have carry: "list_all2
                (\<lambda>r (slug, meta).
                   Region r = meta_region meta \<and> Chapter_Name r = meta_name meta
                   \<and> counts slug =
                       Some \<lparr>c13_sub = Years_13_17_Submitted r,
                             c13_prog = Years_13_17_In_Progress r,
                             c18_sub = Above_18_Years_Submitted r,
                             c18_prog = Above_18_Years_In_Progress r\<rparr>)
                ?rows ?ordered"
    by (rule rows_carry_counts)
  from eq len srt num tot cells perm osrt stable carry show ?thesis
    by (intro exI [where x = ?rows] exI [where x = ?ordered] conjI)
qed

lemma fixture_mixed_sorted:
  "sort_key row_key fixture_mixed_chapters =
     [(''a'', \<lparr>meta_name = ''alpha'', meta_region = ''AMR''\<rparr>),
      (''z'', \<lparr>meta_name = ''Zeta'', meta_region = ''AMR''\<rparr>),
      (''l'', \<lparr>meta_name = CHR 0xE0 # ''land'', meta_region = ''EMEA''\<rparr>),
      (''e'', \<lparr>meta_name = CHR 0xC9 # ''ire'', meta_region = ''EMEA''\<rparr>),
      (''b'', \<lparr>meta_name = ''Beta'', meta_region = ''PRC''\<rparr>)]"
proof -
  have keys:
    "row_key (''z'', \<lparr>meta_name = ''Zeta'', meta_region = ''AMR''\<rparr>) = (''AMR'', ''zeta'')"
    "row_key (''e'', \<lparr>meta_name = CHR 0xC9 # ''ire'', meta_region = ''EMEA''\<rparr>)
       = (''EMEA'', CHR 0xE9 # ''ire'')"
    "row_key (''b'', \<lparr>meta_name = ''Beta'', meta_region = ''PRC''\<rparr>) = (''PRC'', ''beta'')"
    "row_key (''a'', \<lparr>meta_name = ''alpha'', meta_region = ''AMR''\<rparr>) = (''AMR'', ''alpha'')"
    "row_key (''l'', \<lparr>meta_name = CHR 0xE0 # ''land'', meta_region = ''EMEA''\<rparr>)
       = (''EMEA'', CHR 0xE0 # ''land'')"
    by code_simp+
  show ?thesis
    by (simp add: fixture_mixed_chapters_def keys)
qed

theorem compose_rows_sorted_numbered_witness:
  "fst ` set fixture_three_chapters \<subseteq> dom (init_counts fixture_three_chapters)
   \<and> (\<exists>rows. compose_rows fixture_three_chapters (init_counts fixture_three_chapters) = Inr rows
         \<and> map (\<lambda>r. (No r, Region r, Chapter_Name r, Total r)) rows
             = [(1, ''AMR'', ''Alpha'', 0), (2, ''AMR'', ''Zeta'', 0), (3, ''PRC'', ''Beta'', 0)])
   \<and> fst ` set fixture_mixed_chapters \<subseteq> dom fixture_mixed_counts
   \<and> (\<exists>rows. compose_rows fixture_mixed_chapters fixture_mixed_counts = Inr rows
         \<and> rows =
             [\<lparr>No = 1, Region = ''AMR'', Chapter_Name = ''alpha'',
               Years_13_17_Submitted = 5, Years_13_17_In_Progress = 0,
               Above_18_Years_Submitted = 0, Above_18_Years_In_Progress = 1, Total = 6\<rparr>,
              \<lparr>No = 2, Region = ''AMR'', Chapter_Name = ''Zeta'',
               Years_13_17_Submitted = 1, Years_13_17_In_Progress = 2,
               Above_18_Years_Submitted = 3, Above_18_Years_In_Progress = 4, Total = 10\<rparr>,
              \<lparr>No = 3, Region = ''EMEA'', Chapter_Name = CHR 0xE0 # ''land'',
               Years_13_17_Submitted = 0, Years_13_17_In_Progress = 7,
               Above_18_Years_Submitted = 0, Above_18_Years_In_Progress = 0, Total = 7\<rparr>,
              \<lparr>No = 4, Region = ''EMEA'', Chapter_Name = CHR 0xC9 # ''ire'',
               Years_13_17_Submitted = 2, Years_13_17_In_Progress = 0,
               Above_18_Years_Submitted = 9, Above_18_Years_In_Progress = 0, Total = 11\<rparr>,
              \<lparr>No = 5, Region = ''PRC'', Chapter_Name = ''Beta'',
               Years_13_17_Submitted = 0, Years_13_17_In_Progress = 0,
               Above_18_Years_Submitted = 8, Above_18_Years_In_Progress = 3, Total = 11\<rparr>])
   \<and> lower ''Zeta'' = ''zeta'' \<and> ''Zeta'' < ''alpha'' \<and> ''alpha'' < ''zeta''
   \<and> lower (CHR 0xC9 # ''ire'') = CHR 0xE9 # ''ire''
   \<and> CHR 0xC9 # ''ire'' < CHR 0xE0 # ''land'' \<and> CHR 0xE0 # ''land'' < CHR 0xE9 # ''ire''"
proof -
  have dom: "fst ` set fixture_three_chapters \<subseteq> dom (init_counts fixture_three_chapters)"
    by (simp add: fixture_three_chapters_def init_counts_def)
  from compose_rows_sorted_numbered [OF dom]
  obtain rows where rows:
    "compose_rows fixture_three_chapters (init_counts fixture_three_chapters) = Inr rows"
    by blast
  have keys3:
    "row_key (''z'', \<lparr>meta_name = ''Zeta'', meta_region = ''AMR''\<rparr>) = (''AMR'', ''zeta'')"
    "row_key (''a'', \<lparr>meta_name = ''Alpha'', meta_region = ''AMR''\<rparr>) = (''AMR'', ''alpha'')"
    "row_key (''b'', \<lparr>meta_name = ''Beta'', meta_region = ''PRC''\<rparr>) = (''PRC'', ''beta'')"
    by code_simp+
  have order: "sort_key row_key fixture_three_chapters =
     [(''a'', \<lparr>meta_name = ''Alpha'', meta_region = ''AMR''\<rparr>),
      (''z'', \<lparr>meta_name = ''Zeta'', meta_region = ''AMR''\<rparr>),
      (''b'', \<lparr>meta_name = ''Beta'', meta_region = ''PRC''\<rparr>)]"
    by (simp add: fixture_three_chapters_def keys3)
  have made: "make_rows (init_counts fixture_three_chapters)
          (enumerate 1
            [(''a'', \<lparr>meta_name = ''Alpha'', meta_region = ''AMR''\<rparr>),
             (''z'', \<lparr>meta_name = ''Zeta'', meta_region = ''AMR''\<rparr>),
             (''b'', \<lparr>meta_name = ''Beta'', meta_region = ''PRC''\<rparr>)]) =
     Inr [make_row 1 \<lparr>meta_name = ''Alpha'', meta_region = ''AMR''\<rparr>
            \<lparr>c13_sub = 0, c13_prog = 0, c18_sub = 0, c18_prog = 0\<rparr>,
          make_row 2 \<lparr>meta_name = ''Zeta'', meta_region = ''AMR''\<rparr>
            \<lparr>c13_sub = 0, c13_prog = 0, c18_sub = 0, c18_prog = 0\<rparr>,
          make_row 3 \<lparr>meta_name = ''Beta'', meta_region = ''PRC''\<rparr>
            \<lparr>c13_sub = 0, c13_prog = 0, c18_sub = 0, c18_prog = 0\<rparr>]"
    by (simp add: fixture_three_chapters_def init_counts_def eval_nat_numeral)
  have "compose_rows fixture_three_chapters (init_counts fixture_three_chapters) = Inr
        [make_row 1 \<lparr>meta_name = ''Alpha'', meta_region = ''AMR''\<rparr>
            \<lparr>c13_sub = 0, c13_prog = 0, c18_sub = 0, c18_prog = 0\<rparr>,
          make_row 2 \<lparr>meta_name = ''Zeta'', meta_region = ''AMR''\<rparr>
            \<lparr>c13_sub = 0, c13_prog = 0, c18_sub = 0, c18_prog = 0\<rparr>,
          make_row 3 \<lparr>meta_name = ''Beta'', meta_region = ''PRC''\<rparr>
            \<lparr>c13_sub = 0, c13_prog = 0, c18_sub = 0, c18_prog = 0\<rparr>]"
    unfolding compose_rows_def order by (rule made)
  with rows have "rows =
        [make_row 1 \<lparr>meta_name = ''Alpha'', meta_region = ''AMR''\<rparr>
            \<lparr>c13_sub = 0, c13_prog = 0, c18_sub = 0, c18_prog = 0\<rparr>,
          make_row 2 \<lparr>meta_name = ''Zeta'', meta_region = ''AMR''\<rparr>
            \<lparr>c13_sub = 0, c13_prog = 0, c18_sub = 0, c18_prog = 0\<rparr>,
          make_row 3 \<lparr>meta_name = ''Beta'', meta_region = ''PRC''\<rparr>
            \<lparr>c13_sub = 0, c13_prog = 0, c18_sub = 0, c18_prog = 0\<rparr>]"
    by simp
  then have "map (\<lambda>r. (No r, Region r, Chapter_Name r, Total r)) rows
             = [(1, ''AMR'', ''Alpha'', 0), (2, ''AMR'', ''Zeta'', 0), (3, ''PRC'', ''Beta'', 0)]"
    by (simp add: make_row_def)
  with rows have three: "\<exists>rows.
      compose_rows fixture_three_chapters (init_counts fixture_three_chapters) = Inr rows
      \<and> map (\<lambda>r. (No r, Region r, Chapter_Name r, Total r)) rows
          = [(1, ''AMR'', ''Alpha'', 0), (2, ''AMR'', ''Zeta'', 0), (3, ''PRC'', ''Beta'', 0)]"
    by simp

  have domm: "fst ` set fixture_mixed_chapters \<subseteq> dom fixture_mixed_counts"
    by (simp add: fixture_mixed_chapters_def fixture_mixed_counts_def)
  from compose_rows_sorted_numbered [OF domm]
  obtain mrows where mrows: "compose_rows fixture_mixed_chapters fixture_mixed_counts = Inr mrows"
    by blast
  have "make_rows fixture_mixed_counts
          (enumerate 1
            [(''a'', \<lparr>meta_name = ''alpha'', meta_region = ''AMR''\<rparr>),
             (''z'', \<lparr>meta_name = ''Zeta'', meta_region = ''AMR''\<rparr>),
             (''l'', \<lparr>meta_name = CHR 0xE0 # ''land'', meta_region = ''EMEA''\<rparr>),
             (''e'', \<lparr>meta_name = CHR 0xC9 # ''ire'', meta_region = ''EMEA''\<rparr>),
             (''b'', \<lparr>meta_name = ''Beta'', meta_region = ''PRC''\<rparr>)]) =
     Inr [\<lparr>No = 1, Region = ''AMR'', Chapter_Name = ''alpha'',
               Years_13_17_Submitted = 5, Years_13_17_In_Progress = 0,
               Above_18_Years_Submitted = 0, Above_18_Years_In_Progress = 1, Total = 6\<rparr>,
              \<lparr>No = 2, Region = ''AMR'', Chapter_Name = ''Zeta'',
               Years_13_17_Submitted = 1, Years_13_17_In_Progress = 2,
               Above_18_Years_Submitted = 3, Above_18_Years_In_Progress = 4, Total = 10\<rparr>,
              \<lparr>No = 3, Region = ''EMEA'', Chapter_Name = CHR 0xE0 # ''land'',
               Years_13_17_Submitted = 0, Years_13_17_In_Progress = 7,
               Above_18_Years_Submitted = 0, Above_18_Years_In_Progress = 0, Total = 7\<rparr>,
              \<lparr>No = 4, Region = ''EMEA'', Chapter_Name = CHR 0xC9 # ''ire'',
               Years_13_17_Submitted = 2, Years_13_17_In_Progress = 0,
               Above_18_Years_Submitted = 9, Above_18_Years_In_Progress = 0, Total = 11\<rparr>,
              \<lparr>No = 5, Region = ''PRC'', Chapter_Name = ''Beta'',
               Years_13_17_Submitted = 0, Years_13_17_In_Progress = 0,
               Above_18_Years_Submitted = 8, Above_18_Years_In_Progress = 3, Total = 11\<rparr>]"
    by (simp add: fixture_mixed_counts_def make_row_def eval_nat_numeral)
  then have "compose_rows fixture_mixed_chapters fixture_mixed_counts =
     Inr [\<lparr>No = 1, Region = ''AMR'', Chapter_Name = ''alpha'',
               Years_13_17_Submitted = 5, Years_13_17_In_Progress = 0,
               Above_18_Years_Submitted = 0, Above_18_Years_In_Progress = 1, Total = 6\<rparr>,
              \<lparr>No = 2, Region = ''AMR'', Chapter_Name = ''Zeta'',
               Years_13_17_Submitted = 1, Years_13_17_In_Progress = 2,
               Above_18_Years_Submitted = 3, Above_18_Years_In_Progress = 4, Total = 10\<rparr>,
              \<lparr>No = 3, Region = ''EMEA'', Chapter_Name = CHR 0xE0 # ''land'',
               Years_13_17_Submitted = 0, Years_13_17_In_Progress = 7,
               Above_18_Years_Submitted = 0, Above_18_Years_In_Progress = 0, Total = 7\<rparr>,
              \<lparr>No = 4, Region = ''EMEA'', Chapter_Name = CHR 0xC9 # ''ire'',
               Years_13_17_Submitted = 2, Years_13_17_In_Progress = 0,
               Above_18_Years_Submitted = 9, Above_18_Years_In_Progress = 0, Total = 11\<rparr>,
              \<lparr>No = 5, Region = ''PRC'', Chapter_Name = ''Beta'',
               Years_13_17_Submitted = 0, Years_13_17_In_Progress = 0,
               Above_18_Years_Submitted = 8, Above_18_Years_In_Progress = 3, Total = 11\<rparr>]"
    unfolding compose_rows_def fixture_mixed_sorted .
  with mrows have mixed: "\<exists>rows. compose_rows fixture_mixed_chapters fixture_mixed_counts = Inr rows
         \<and> rows =
             [\<lparr>No = 1, Region = ''AMR'', Chapter_Name = ''alpha'',
               Years_13_17_Submitted = 5, Years_13_17_In_Progress = 0,
               Above_18_Years_Submitted = 0, Above_18_Years_In_Progress = 1, Total = 6\<rparr>,
              \<lparr>No = 2, Region = ''AMR'', Chapter_Name = ''Zeta'',
               Years_13_17_Submitted = 1, Years_13_17_In_Progress = 2,
               Above_18_Years_Submitted = 3, Above_18_Years_In_Progress = 4, Total = 10\<rparr>,
              \<lparr>No = 3, Region = ''EMEA'', Chapter_Name = CHR 0xE0 # ''land'',
               Years_13_17_Submitted = 0, Years_13_17_In_Progress = 7,
               Above_18_Years_Submitted = 0, Above_18_Years_In_Progress = 0, Total = 7\<rparr>,
              \<lparr>No = 4, Region = ''EMEA'', Chapter_Name = CHR 0xC9 # ''ire'',
               Years_13_17_Submitted = 2, Years_13_17_In_Progress = 0,
               Above_18_Years_Submitted = 9, Above_18_Years_In_Progress = 0, Total = 11\<rparr>,
              \<lparr>No = 5, Region = ''PRC'', Chapter_Name = ''Beta'',
               Years_13_17_Submitted = 0, Years_13_17_In_Progress = 0,
               Above_18_Years_Submitted = 8, Above_18_Years_In_Progress = 3, Total = 11\<rparr>]"
    by simp
  have low: "lower ''Zeta'' = ''zeta''" "lower (CHR 0xC9 # ''ire'') = CHR 0xE9 # ''ire''"
    by code_simp+
  have ord: "''Zeta'' < ''alpha''" "''alpha'' < ''zeta''"
    "CHR 0xC9 # ''ire'' < CHR 0xE0 # ''land''" "CHR 0xE0 # ''land'' < CHR 0xE9 # ''ire''"
    by simp_all
  from dom three domm mixed low ord show ?thesis
    by (intro conjI)
qed

lemma REGION_MAP_tags: "fst ` set REGION_MAP \<subseteq> region_tags"
  by (simp add: REGION_MAP_def region_tags_def)

lemma fixed_tags: "''EMEA'' \<in> region_tags" "''Other'' \<in> region_tags"
  by (simp_all add: region_tags_def)

lemma find_Some_mem: "find P xs = Some x \<Longrightarrow> x \<in> set xs"
  by (induction xs) (auto split: if_splits)

lemma chapter_to_region_range: "chapter_to_region name \<in> region_tags"
proof (cases "lower name = ''global festival''")
  case True
  then show ?thesis by (simp add: chapter_to_region_def fixed_tags)
next
  case False
  show ?thesis
  proof (cases "find (\<lambda>(region, countries). lower name \<in> set countries) REGION_MAP")
    case None
    with False show ?thesis by (simp add: chapter_to_region_def fixed_tags)
  next
    case (Some rc)
    then have "rc \<in> set REGION_MAP"
      by (rule find_Some_mem)
    then have "fst rc \<in> region_tags"
      using REGION_MAP_tags by auto
    with False Some show ?thesis
      by (simp add: chapter_to_region_def case_prod_beta)
  qed
qed

lemma set_update_subset: "set (AList.update k v al) \<subseteq> insert (k, v) (set al)"
  by (induction al) auto

lemma store_chapter_regions:
  assumes "\<forall>kv \<in> set chapters. meta_region (snd kv) \<in> region_tags"
  shows "\<forall>kv \<in> set (store_chapter ch chapters). meta_region (snd kv) \<in> region_tags"
proof
  fix kv
  assume "kv \<in> set (store_chapter ch chapters)"
  then have "kv \<in> insert (item_slug ch, \<lparr>meta_name = item_name_en_GB ch,
                                 meta_region = chapter_to_region (item_name_en_GB ch)\<rparr>) (set chapters)"
    unfolding store_chapter_def Let_def using set_update_subset by fast
  then show "meta_region (snd kv) \<in> region_tags"
    using assms chapter_to_region_range by auto
qed

lemma loaded_regions:
  assumes "\<forall>kv \<in> set chapters. meta_region (snd kv) \<in> region_tags"
  shows "\<forall>kv \<in> set (fold store_chapter items chapters). meta_region (snd kv) \<in> region_tags"
  using assms
proof (induction items arbitrary: chapters)
  case Nil
  then show ?case by simp
next
  case (Cons ch items)
  from Cons.prems have "\<forall>kv \<in> set (store_chapter ch chapters). meta_region (snd kv) \<in> region_tags"
    by (rule store_chapter_regions)
  then have "\<forall>kv \<in> set (fold store_chapter items (store_chapter ch chapters)).
      meta_region (snd kv) \<in> region_tags"
    by (rule Cons.IH)
  then show ?case by simp
qed

lemma sorted_map_fst:
  fixes xs :: "('a::linorder \<times> 'b::linorder) list"
  shows "sorted xs \<Longrightarrow> sorted (map fst xs)"
  by (induction xs) (auto simp add: less_eq_prod_def)

lemma region_tags_order:
  "''AMR'' < ''APJ''" "''APJ'' < ''EMEA''" "''EMEA'' < ''Other''" "''Other'' < ''PRC''"
  by simp_all

lemma region_rank_values:
  "region_rank ''AMR'' = 0" "region_rank ''APJ'' = 1" "region_rank ''EMEA'' = 2"
  "region_rank ''Other'' = 3" "region_rank ''PRC'' = 4"
  by (simp_all add: region_rank_def)

lemma region_rank_mono:
  assumes "r1 \<in> region_tags" and "r2 \<in> region_tags" and "r1 \<le> r2"
  shows "region_rank r1 \<le> region_rank r2"
  using assms by (auto simp add: region_tags_def region_rank_values)

lemma sorted_region_rank:
  assumes "sorted rs" and "set rs \<subseteq> region_tags"
  shows "sorted (map region_rank rs)"
proof -
  have "sorted_wrt (\<lambda>x y. region_rank x \<le> region_rank y) rs"
  proof (rule sorted_wrt_mono_rel [of rs "(\<le>)"])
    fix x y
    assume "x \<in> set rs" "y \<in> set rs" "x \<le> y"
    with assms(2) show "region_rank x \<le> region_rank y"
      using region_rank_mono by blast
  next
    show "sorted_wrt (\<le>) rs" using assms(1) by simp
  qed
  then show ?thesis by (simp add: sorted_map)
qed

lemma map_Region_rows:
  "map Region (map (\<lambda>(i, slug, meta). make_row i meta (f slug)) (enumerate n xs))
   = map fst (map row_key xs)"
  by (induction xs arbitrary: n) (auto simp add: make_row_def row_key_def split: prod.splits)

text \<open>
  C9. The first component of the sort key is the region tag, compared as a string. The
  rows composed from the chapters that \<^verbatim>\<open>fetch_chapters\<close> builds (every region then is
  a value of \<^verbatim>\<open>chapter_to_region\<close>, one of the five tags) are sorted by the region tag
  in the order of strings, and in that order the five tags stand as AMR, APJ, EMEA,
  Other, PRC: the position of the region in this list never decreases along the rows.
\<close>

theorem rows_grouped_in_string_order_of_regions:
  assumes "compose_rows (fold store_chapter items []) counts = Inr rows"
  shows "sorted (map Region rows)
         \<and> (\<forall>r \<in> set rows. Region r \<in> region_tags)
         \<and> sorted (map (\<lambda>r. region_rank (Region r)) rows)
         \<and> ''AMR'' < ''APJ'' \<and> ''APJ'' < ''EMEA'' \<and> ''EMEA'' < ''Other'' \<and> ''Other'' < ''PRC''
         \<and> map region_rank [''AMR'', ''APJ'', ''EMEA'', ''Other'', ''PRC''] = [0, 1, 2, 3, 4]"
proof -
  let ?chapters = "fold store_chapter items []"
  from assms have "rows = map (\<lambda>(i, slug, meta). make_row i meta (the (counts slug)))
                           (enumerate 1 (sort_key row_key ?chapters))"
    unfolding compose_rows_def by (rule make_rows_Inr)
  then have regions: "map Region rows = map fst (map row_key (sort_key row_key ?chapters))"
    by (simp only: map_Region_rows)
  have srt: "sorted (map Region rows)"
    unfolding regions by (rule sorted_map_fst) (rule sorted_sort_key)
  have "\<forall>kv \<in> set ?chapters. meta_region (snd kv) \<in> region_tags"
    by (rule loaded_regions) simp
  then have tags: "set (map Region rows) \<subseteq> region_tags"
    unfolding regions by (auto simp add: row_key_def)
  from srt tags have "sorted (map region_rank (map Region rows))"
    by (rule sorted_region_rank)
  then have rank: "sorted (map (\<lambda>r. region_rank (Region r)) rows)"
    by (simp add: comp_def)
  from tags have mem: "\<forall>r \<in> set rows. Region r \<in> region_tags"
    by auto
  have vals: "map region_rank [''AMR'', ''APJ'', ''EMEA'', ''Other'', ''PRC''] = [0, 1, 2, 3, 4]"
    by (simp add: region_rank_values)
  from srt mem rank region_tags_order vals show ?thesis
    by simp
qed

lemma fixture_five_loaded:
  "fold store_chapter fixture_five_items [] =
     [(''cn'', \<lparr>meta_name = ''China'', meta_region = ''PRC''\<rparr>),
      (''gf'', \<lparr>meta_name = ''Global Festival'', meta_region = ''Other''\<rparr>),
      (''de'', \<lparr>meta_name = ''Germany'', meta_region = ''EMEA''\<rparr>),
      (''in'', \<lparr>meta_name = ''India'', meta_region = ''APJ''\<rparr>),
      (''br'', \<lparr>meta_name = ''Brazil'', meta_region = ''AMR''\<rparr>)]"
proof -
  have "chapter_to_region ''China'' = ''PRC''" "chapter_to_region ''Global Festival'' = ''Other''"
    "chapter_to_region ''Germany'' = ''EMEA''" "chapter_to_region ''India'' = ''APJ''"
    "chapter_to_region ''Brazil'' = ''AMR''"
    by code_simp+
  then show ?thesis
    by (simp add: fixture_five_items_def store_chapter_def)
qed

lemma fixture_five_sorted:
  "map (\<lambda>kv. meta_region (snd kv))
     (sort_key row_key
       [(''cn'', \<lparr>meta_name = ''China'', meta_region = ''PRC''\<rparr>),
        (''gf'', \<lparr>meta_name = ''Global Festival'', meta_region = ''Other''\<rparr>),
        (''de'', \<lparr>meta_name = ''Germany'', meta_region = ''EMEA''\<rparr>),
        (''in'', \<lparr>meta_name = ''India'', meta_region = ''APJ''\<rparr>),
        (''br'', \<lparr>meta_name = ''Brazil'', meta_region = ''AMR''\<rparr>)])
   = [''AMR'', ''APJ'', ''EMEA'', ''Other'', ''PRC'']"
proof -
  have keys:
    "row_key (''cn'', \<lparr>meta_name = ''China'', meta_region = ''PRC''\<rparr>) = (''PRC'', ''china'')"
    "row_key (''gf'', \<lparr>meta_name = ''Global Festival'', meta_region = ''Other''\<rparr>) = (''Other'', ''global festival'')"
    "row_key (''de'', \<lparr>meta_name = ''Germany'', meta_region = ''EMEA''\<rparr>) = (''EMEA'', ''germany'')"
    "row_key (''in'', \<lparr>meta_name = ''India'', meta_region = ''APJ''\<rparr>) = (''APJ'', ''india'')"
    "row_key (''br'', \<lparr>meta_name = ''Brazil'', meta_region = ''AMR''\<rparr>) = (''AMR'', ''brazil'')"
    by code_simp+
  show ?thesis
    by (simp add: keys)
qed

theorem rows_grouped_in_string_order_of_regions_witness:
  "\<exists>rows. compose_rows (fold store_chapter fixture_five_items [])
             (init_counts (fold store_chapter fixture_five_items [])) = Inr rows
     \<and> map Region rows = [''AMR'', ''APJ'', ''EMEA'', ''Other'', ''PRC'']
     \<and> sorted (map Region rows)
     \<and> sorted (map (\<lambda>r. region_rank (Region r)) rows)"
proof -
  let ?chapters = "fold store_chapter fixture_five_items []"
  let ?rows = "map (\<lambda>(i, slug, meta). make_row i meta (the (init_counts ?chapters slug)))
                 (enumerate 1 (sort_key row_key ?chapters))"
  have "fst ` set ?chapters \<subseteq> dom (init_counts ?chapters)"
    by (auto simp add: init_counts_apply dom_def)
  then have run: "compose_rows ?chapters (init_counts ?chapters) = Inr ?rows"
    by (rule compose_rows_eq)
  have "map Region ?rows = map (\<lambda>kv. meta_region (snd kv)) (sort_key row_key ?chapters)"
    by (simp only: map_Region_rows) (simp add: row_key_def)
  then have regions: "map Region ?rows = [''AMR'', ''APJ'', ''EMEA'', ''Other'', ''PRC'']"
    by (simp only: fixture_five_loaded fixture_five_sorted)
  from rows_grouped_in_string_order_of_regions [OF run]
  have "sorted (map Region ?rows)" and "sorted (map (\<lambda>r. region_rank (Region r)) ?rows)"
    by simp_all
  with run regions show ?thesis
    by (intro exI [where x = ?rows] conjI)
qed

section \<open>Pagination\<close>

lemma truthy_BASE_URL: "truthy (JStr (BASE_URL @ path))"
  by (simp add: BASE_URL_def)

lemma world_eta: "\<lparr>trace = trace w, remote = remote w\<rparr> = (w :: 's world)"
  by simp

lemma served_Cons_D:
  assumes "served get url params s (p # ps) = Some s'"
  obtains code s1 where "get url params s = (Response code (Some p), s1)"
    and "\<not> is_error_status code" and "served get (next_url p) None s1 ps = Some s'"
  using assms
  by (auto split: prod.splits reply.splits option.splits if_splits)

lemma loop_step_page:
  assumes "truthy url" and "get url params (remote w) = (Response code (Some b), s)"
    and "\<not> is_error_status code"
  shows "cf_get_loop get url params items w =
         cf_get_loop get (next_url b) None (items @ data b)
           \<lparr>trace = trace w @ [Http_get url params], remote = s\<rparr>"
  using assms by (subst cf_get_loop.simps) simp

lemma loop_stop: "\<not> truthy url \<Longrightarrow> cf_get_loop get url params items w = Some (Inr items, w)"
  by (subst cf_get_loop.simps) simp

lemma loop_returns_pages:
  assumes "pages \<noteq> []"
    and "served get url params (remote w) pages = Some s'"
    and "\<forall>p \<in> set (butlast pages). truthy (next_url p)"
    and "\<not> truthy (next_url (last pages))"
    and "truthy url"
  shows "cf_get_loop get url params items w =
         Some (Inr (items @ concat (map data pages)),
               \<lparr>trace = trace w @ page_requests url params pages, remote = s'\<rparr>)"
  using assms
proof (induction pages arbitrary: url params items w)
  case Nil
  then show ?case by simp
next
  case (Cons p ps)
  from Cons.prems(2) obtain code s1 where
    reply: "get url params (remote w) = (Response code (Some p), s1)"
    and ok: "\<not> is_error_status code"
    and rest: "served get (next_url p) None s1 ps = Some s'"
    by (rule served_Cons_D)
  let ?w1 = "\<lparr>trace = trace w @ [Http_get url params], remote = s1\<rparr>"
  have step: "cf_get_loop get url params items w =
              cf_get_loop get (next_url p) None (items @ data p) ?w1"
    using Cons.prems(5) reply ok by (rule loop_step_page)
  show ?case
  proof (cases "ps = []")
    case True
    with Cons.prems(4) have "\<not> truthy (next_url p)" by simp
    then have "cf_get_loop get (next_url p) None (items @ data p) ?w1 =
               Some (Inr (items @ data p), ?w1)"
      by (rule loop_stop)
    with step True rest show ?thesis by simp
  next
    case False
    with Cons.prems(3) have t: "truthy (next_url p)" by simp
    from False Cons.prems(3) have bl: "\<forall>q \<in> set (butlast ps). truthy (next_url q)" by simp
    from False Cons.prems(4) have la: "\<not> truthy (next_url (last ps))" by simp
    have rest': "served get (next_url p) None (remote ?w1) ps = Some s'"
      using rest by simp
    from Cons.IH [OF False rest' bl la t, of "items @ data p"] step
    show ?thesis by simp
  qed
qed

lemma page_requests_eq:
  "page_requests url params pages =
     (if pages = [] then []
      else Http_get url params # map (\<lambda>p. Http_get (next_url p) None) (butlast pages))"
  by (induction pages arbitrary: url params) auto

lemma length_page_requests: "length (page_requests url params pages) = length pages"
  by (induction pages arbitrary: url params) auto

lemma loop_follows_pages:
  assumes "served get url params (remote w) pages = Some s'"
    and "\<forall>p \<in> set pages. truthy (next_url p)"
  shows "cf_get_loop get url params items w =
         cf_get_loop get (url_after url pages) (params_after params pages)
           (items @ concat (map data pages))
           \<lparr>trace = trace w @ page_requests url params pages, remote = s'\<rparr>
         \<or> \<not> truthy url"
  using assms
proof (induction pages arbitrary: url params items w)
  case Nil
  then have "\<lparr>trace = trace w @ page_requests url params [], remote = s'\<rparr> = w"
    by simp
  then show ?case by (simp add: url_after_def params_after_def)
next
  case (Cons p ps)
  show ?case
  proof (cases "truthy url")
    case False
    then show ?thesis by simp
  next
    case True
    from Cons.prems(1) obtain code s1 where
      reply: "get url params (remote w) = (Response code (Some p), s1)"
      and ok: "\<not> is_error_status code"
      and rest: "served get (next_url p) None s1 ps = Some s'"
      by (rule served_Cons_D)
    let ?w1 = "\<lparr>trace = trace w @ [Http_get url params], remote = s1\<rparr>"
    have step: "cf_get_loop get url params items w =
                cf_get_loop get (next_url p) None (items @ data p) ?w1"
      using True reply ok by (rule loop_step_page)
    from Cons.prems(2) have t: "truthy (next_url p)" and ts: "\<forall>q \<in> set ps. truthy (next_url q)"
      by simp_all
    have rest': "served get (next_url p) None (remote ?w1) ps = Some s'"
      using rest by simp
    from Cons.IH [OF rest' ts, of "items @ data p"] t
    have "cf_get_loop get (next_url p) None (items @ data p) ?w1 =
          cf_get_loop get (url_after (next_url p) ps) (params_after None ps)
            ((items @ data p) @ concat (map data ps))
            \<lparr>trace = trace ?w1 @ page_requests (next_url p) None ps, remote = s'\<rparr>"
      by simp
    moreover have "url_after (next_url p) ps = url_after url (p # ps)"
      and "params_after None ps = params_after params (p # ps)"
      by (simp_all add: url_after_def params_after_def)
    ultimately show ?thesis using step by simp
  qed
qed

lemma loop_step_error:
  assumes "truthy url" and "get url params (remote w) = (Response code payload, s)"
    and "is_error_status code"
  shows "cf_get_loop get url params items w =
         Some (Inl (HTTP_error code), \<lparr>trace = trace w @ [Http_get url params], remote = s\<rparr>)"
  using assms by (subst cf_get_loop.simps) simp

lemma url_after_truthy:
  "truthy url \<Longrightarrow> \<forall>p \<in> set pages. truthy (next_url p) \<Longrightarrow> truthy (url_after url pages)"
  by (simp add: url_after_def)

lemma loop_fails_after_pages:
  assumes "truthy url"
    and "served get url params (remote w) pages = Some s1"
    and "\<forall>p \<in> set pages. truthy (next_url p)"
    and "get (url_after url pages) (params_after params pages) s1 = (Response code payload, s2)"
    and "is_error_status code"
  shows "cf_get_loop get url params items w =
         Some (Inl (HTTP_error code),
               \<lparr>trace = trace w @ page_requests url params pages
                          @ [Http_get (url_after url pages) (params_after params pages)],
                remote = s2\<rparr>)"
proof -
  let ?w1 = "\<lparr>trace = trace w @ page_requests url params pages, remote = s1\<rparr>"
  from loop_follows_pages [OF assms(2,3), of items] assms(1)
  have "cf_get_loop get url params items w =
        cf_get_loop get (url_after url pages) (params_after params pages)
          (items @ concat (map data pages)) ?w1"
    by simp
  moreover have "cf_get_loop get (url_after url pages) (params_after params pages)
          (items @ concat (map data pages)) ?w1 =
        Some (Inl (HTTP_error code),
              \<lparr>trace = trace ?w1 @ [Http_get (url_after url pages) (params_after params pages)],
               remote = s2\<rparr>)"
    using url_after_truthy [OF assms(1,3)] assms(4,5)
    by (intro loop_step_error) simp_all
  ultimately show ?thesis by simp
qed

lemma loop_diverges:
  assumes inv: "\<And>url params s. I url s \<Longrightarrow>
            truthy url \<and> (\<exists>code b s'. get url params s = (Response code (Some b), s')
                              \<and> \<not> is_error_status code \<and> I (next_url b) s')"
    and start: "I url (remote w)"
  shows "cf_get_loop get url params items w = None"
proof (rule ccontr)
  assume "cf_get_loop get url params items w \<noteq> None"
  then obtain y where y: "cf_get_loop get url params items w = Some y" by auto
  have "get = get \<longrightarrow> \<not> I url (remote w)"
  proof (rule cf_get_loop.raw_induct
      [where P = "\<lambda>g u p i w y. g = get \<longrightarrow> \<not> I u (remote w)", OF _ y], goal_cases)
    case (1 cf g u p i v z)
    show ?case
    proof (intro impI notI)
      assume g: "g = get" and I: "I u (remote v)"
      from inv [OF I, of p] obtain code b s' where t: "truthy u"
        and reply: "get u p (remote v) = (Response code (Some b), s')"
        and ok: "\<not> is_error_status code" and I': "I (next_url b) s'"
        by blast
      from "1"(2) g t reply ok
      have "cf get (next_url b) None (i @ data b)
              \<lparr>trace = trace v @ [Http_get u p], remote = s'\<rparr> = Some z"
        by simp
      from "1"(1) [OF this] I' show False by simp
    qed
  qed
  with start show False by simp
qed

lemma loop_returned_pages:
  fixes get :: "json \<Rightarrow> params option \<Rightarrow> 's \<Rightarrow> 'a reply \<times> 's"
  assumes "cf_get_loop get url params items w = Some (Inr xs, w')" and "truthy url"
  shows "\<exists>pages. pages \<noteq> [] \<and> served get url params (remote w) pages = Some (remote w')
           \<and> (\<forall>p \<in> set (butlast pages). truthy (next_url p))
           \<and> \<not> truthy (next_url (last pages))
           \<and> xs = items @ concat (map data pages)"
proof -
  let ?Q = "\<lambda>(g :: json \<Rightarrow> params option \<Rightarrow> 's \<Rightarrow> 'a reply \<times> 's) u p (i :: 'a list)
               (v :: 's world) (z :: (error + 'a list) \<times> 's world).
      if truthy u then
        (\<forall>xs w'. z = (Inr xs, w') \<longrightarrow>
           (\<exists>pages. pages \<noteq> [] \<and> served g u p (remote v) pages = Some (remote w')
              \<and> (\<forall>q \<in> set (butlast pages). truthy (next_url q))
              \<and> \<not> truthy (next_url (last pages))
              \<and> xs = i @ concat (map data pages)))
      else z = (Inr i, v)"
  have "?Q get url params items w (Inr xs, w')"
  proof (rule cf_get_loop.raw_induct [where P = ?Q, OF _ assms(1)], goal_cases)
    case (1 cf g u p i v z)
    show ?case
    proof (cases "truthy u")
      case False
      with "1"(2) show ?thesis by simp
    next
      case True
      obtain r s where reply: "g u p (remote v) = (r, s)" by (cases "g u p (remote v)")
      let ?v1 = "\<lparr>trace = trace v @ [Http_get u p], remote = s\<rparr>"
      have "\<exists>pages. pages \<noteq> [] \<and> served g u p (remote v) pages = Some (remote w')
              \<and> (\<forall>q \<in> set (butlast pages). truthy (next_url q))
              \<and> \<not> truthy (next_url (last pages))
              \<and> xs = i @ concat (map data pages)"
        if z: "z = (Inr xs, w')" for xs w'
      proof -
        from "1"(2) True reply z obtain code b where r: "r = Response code (Some b)"
          and ok: "\<not> is_error_status code"
          and rec: "cf g (next_url b) None (i @ data b) ?v1 = Some (Inr xs, w')"
          by (auto simp add: Let_def split: reply.splits option.splits if_splits)
        show ?thesis
        proof (cases "truthy (next_url b)")
          case False
          with "1"(1) [OF rec] have "(Inr xs, w') = (Inr (i @ data b), ?v1)" by simp
          then have "xs = i @ data b" and "remote w' = s" by auto
          with reply r ok False
          have "[b] \<noteq> [] \<and> served g u p (remote v) [b] = Some (remote w')
              \<and> (\<forall>q \<in> set (butlast [b]). truthy (next_url q))
              \<and> \<not> truthy (next_url (last [b]))
              \<and> xs = i @ concat (map data [b])"
            by simp
          then show ?thesis by (rule exI)
        next
          case t: True
          with "1"(1) [OF rec] obtain ps where ps: "ps \<noteq> []"
            and srv: "served g (next_url b) None s ps = Some (remote w')"
            and bl: "\<forall>q \<in> set (butlast ps). truthy (next_url q)"
            and la: "\<not> truthy (next_url (last ps))"
            and xs: "xs = (i @ data b) @ concat (map data ps)"
            by auto
          from reply r ok srv ps bl la xs t
          have "b # ps \<noteq> [] \<and> served g u p (remote v) (b # ps) = Some (remote w')
              \<and> (\<forall>q \<in> set (butlast (b # ps)). truthy (next_url q))
              \<and> \<not> truthy (next_url (last (b # ps)))
              \<and> xs = i @ concat (map data (b # ps))"
            by simp
          then show ?thesis by (rule exI)
        qed
      qed
      with True show ?thesis by simp
    qed
  qed
  with assms(2) show ?thesis by simp
qed

lemma served_scripted:
  "served (scripted pages) url params k (map pages [k..<k + n]) = Some (k + n)"
proof (induction n arbitrary: url params k)
  case 0
  then show ?case by simp
next
  case (Suc n)
  have "[k..<k + Suc n] = k # [Suc k..<Suc k + n]"
    by (simp add: upt_conv_Cons)
  with Suc [of "next_url (pages k)" None "Suc k"] show ?case
    by (simp add: scripted_def is_error_status_def)
qed

lemma truthy_next_url: "truthy (next_url b) \<longleftrightarrow> (\<exists>v. next_page_url b = Some v \<and> truthy v)"
  by (cases "next_page_url b") (simp_all add: next_url_def)

lemma falsy_values:
  "\<not> truthy v \<longleftrightarrow> v \<in> {JNull, JBool False, JNum 0, JStr [], JArr [], JObj []}"
  by (cases v) auto

lemma scripted_returns:
  assumes "k \<le> m" and "\<not> truthy (next_url (pages m))"
    and "\<forall>n. k \<le> n \<and> n < m \<longrightarrow> truthy (next_url (pages n))"
    and "truthy url" and "remote w = k"
  shows "cf_get_loop (scripted pages) url params items w =
         Some (Inr (items @ concat (map (\<lambda>n. data (pages n)) [k..<Suc m])),
               \<lparr>trace = trace w @ page_requests url params (map pages [k..<Suc m]),
                remote = Suc m\<rparr>)"
proof -
  let ?ps = "map pages [k..<Suc m]"
  from assms(1) have km: "k + Suc (m - k) = Suc m" by simp
  have ne: "?ps \<noteq> []" using assms(1) by simp
  have srv: "served (scripted pages) url params (remote w) ?ps = Some (Suc m)"
    using served_scripted [of pages url params k "Suc (m - k)"] km assms(5) by simp
  have bl: "\<forall>p \<in> set (butlast ?ps). truthy (next_url p)"
    using assms(1,3) by (auto simp add: map_butlast [symmetric])
  have la: "\<not> truthy (next_url (last ?ps))"
    using assms(1,2) by (simp add: last_map)
  from loop_returns_pages [OF ne srv bl la assms(4), of items]
  show ?thesis by (simp add: comp_def)
qed

lemma scripted_diverges:
  assumes "\<forall>n\<ge>remote w. truthy (next_url (pages n))" and "truthy url"
  shows "cf_get_loop (scripted pages) url params items w = None"
proof (rule loop_diverges [where I = "\<lambda>u n. truthy u \<and> remote w \<le> n"])
  fix u p s
  assume "truthy u \<and> remote w \<le> s"
  with assms(1) show "truthy u \<and> (\<exists>code b s'. scripted pages u p s = (Response code (Some b), s')
                              \<and> \<not> is_error_status code \<and> (truthy (next_url b) \<and> remote w \<le> s'))"
    by (simp add: scripted_def is_error_status_def)
next
  from assms(2) show "truthy url \<and> remote w \<le> remote w" by simp
qed

lemma scripted_returns_iff:
  assumes "truthy url"
  shows "cf_get_loop (scripted pages) url params items w \<noteq> None
         \<longleftrightarrow> (\<exists>n\<ge>remote w. \<not> truthy (next_url (pages n)))"
proof
  assume "cf_get_loop (scripted pages) url params items w \<noteq> None"
  with scripted_diverges [OF _ assms, of w pages params items]
  show "\<exists>n\<ge>remote w. \<not> truthy (next_url (pages n))" by blast
next
  assume "\<exists>n\<ge>remote w. \<not> truthy (next_url (pages n))"
  then have ex: "\<exists>n. remote w \<le> n \<and> \<not> truthy (next_url (pages n))" by blast
  define m where "m = (LEAST n. remote w \<le> n \<and> \<not> truthy (next_url (pages n)))"
  from LeastI_ex [OF ex] have m: "remote w \<le> m" "\<not> truthy (next_url (pages m))"
    unfolding m_def by simp_all
  have "\<forall>n. remote w \<le> n \<and> n < m \<longrightarrow> truthy (next_url (pages n))"
    unfolding m_def using not_less_Least by blast
  from scripted_returns [OF m this assms refl, of params items]
  show "cf_get_loop (scripted pages) url params items w \<noteq> None" by simp
qed

text \<open>
  C4. When the server answers the request for \<^verbatim>\<open>BASE_URL + path\<close> with \<open>params\<close>, and then
  the request for the next page of each body in turn, with the successful pages
  \<open>pages\<close>, of which all but the last name a next page, then \<^verbatim>\<open>cf_get_all\<close> returns the
  records of all pages, concatenated in the order of the pages. It sends one request per
  page: the first to \<^verbatim>\<open>BASE_URL + path\<close> with the caller's parameters, every later one to
  the \<^verbatim>\<open>next_page_url\<close> of the body before it, with no parameters. The witness is the
  fixture of three pages of 100, 100 and 7 records: 207 records, three requests.
\<close>

theorem cf_get_all_concatenates_pages:
  assumes "pages \<noteq> []"
    and "served get (JStr (BASE_URL @ path)) params (remote w) pages = Some s'"
    and "\<forall>p \<in> set (butlast pages). truthy (next_url p)"
    and "\<not> truthy (next_url (last pages))"
  shows "cf_get_all get path params w =
           Some (Inr (concat (map data pages)),
                 \<lparr>trace = trace w @ Http_get (JStr (BASE_URL @ path)) params
                                   # map (\<lambda>p. Http_get (next_url p) None) (butlast pages),
                  remote = s'\<rparr>)
         \<and> length (Http_get (JStr (BASE_URL @ path)) params
                    # map (\<lambda>p. Http_get (next_url p) None) (butlast pages)) = length pages"
proof -
  from loop_returns_pages [OF assms truthy_BASE_URL, of "[]"] assms(1)
  have "cf_get_all get path params w =
           Some (Inr (concat (map data pages)),
                 \<lparr>trace = trace w @ Http_get (JStr (BASE_URL @ path)) params
                                   # map (\<lambda>p. Http_get (next_url p) None) (butlast pages),
                  remote = s'\<rparr>)"
    by (simp add: cf_get_all_def page_requests_eq)
  moreover from assms(1) have "length (Http_get (JStr (BASE_URL @ path)) params
                    # map (\<lambda>p. Http_get (next_url p) None) (butlast pages)) = length pages"
    by simp
  ultimately show ?thesis by simp
qed

lemma upt_join: "[0..<100] @ [100..<200] @ [200..<207] = [0..<(207::nat)]"
proof -
  have "[0..<(100::nat) + 100] = [0..<100] @ [100..<100 + 100]"
    by (rule upt_add_eq_append) simp
  moreover have "[0..<(200::nat) + 7] = [0..<200] @ [200..<200 + 7]"
    by (rule upt_add_eq_append) simp
  ultimately show ?thesis by simp
qed

lemma fixture_page_next:
  "next_url (fixture_page 0) = JStr ''https://api.us.cr4ce.com/entry?page=2''"
  "next_url (fixture_page (Suc 0)) = JStr ''https://api.us.cr4ce.com/entry?page=3''"
  "next_url (fixture_page (Suc (Suc 0))) = JNull"
  by (simp_all add: fixture_page_def next_url_def)

lemma fixture_page_data:
  "data (fixture_page 0) = [0..<100]"
  "data (fixture_page (Suc 0)) = [100..<200]"
  "data (fixture_page (Suc (Suc 0))) = [200..<207]"
  by (simp_all add: fixture_page_def)

theorem cf_get_all_concatenates_pages_witness:
  "cf_get_all (scripted fixture_page) ''/entry'' (Some [(''per_page'', JNum 100)]) fixture_world =
     Some (Inr [0..<207],
           \<lparr>trace =
              [Http_get (JStr ''https://api.us.cr4ce.com/entry'') (Some [(''per_page'', JNum 100)]),
               Http_get (JStr ''https://api.us.cr4ce.com/entry?page=2'') None,
               Http_get (JStr ''https://api.us.cr4ce.com/entry?page=3'') None],
            remote = 3\<rparr>)
   \<and> length [0..<(207::nat)] = 207
   \<and> map (\<lambda>n. length (data (fixture_page n))) [0, 1, 2] = [100, 100, 7]"
proof -
  let ?pages = "[fixture_page 0, fixture_page (Suc 0), fixture_page (Suc (Suc 0))]"
  have ne: "?pages \<noteq> []" by simp
  have srv: "served (scripted fixture_page) (JStr (BASE_URL @ ''/entry''))
               (Some [(''per_page'', JNum 100)]) (remote fixture_world) ?pages = Some 3"
    by (simp add: scripted_def is_error_status_def fixture_world_def fixture_page_next)
  have bl: "\<forall>p \<in> set (butlast ?pages). truthy (next_url p)"
    by (simp add: fixture_page_next)
  have la: "\<not> truthy (next_url (last ?pages))"
    by (simp add: fixture_page_next)
  from cf_get_all_concatenates_pages [OF ne srv bl la]
  have "cf_get_all (scripted fixture_page) ''/entry'' (Some [(''per_page'', JNum 100)]) fixture_world =
     Some (Inr ([0..<100] @ [100..<200] @ [200..<207]),
           \<lparr>trace =
              [Http_get (JStr ''https://api.us.cr4ce.com/entry'') (Some [(''per_page'', JNum 100)]),
               Http_get (JStr ''https://api.us.cr4ce.com/entry?page=2'') None,
               Http_get (JStr ''https://api.us.cr4ce.com/entry?page=3'') None],
            remote = 3\<rparr>)"
    by (simp add: fixture_page_next fixture_page_data fixture_world_def BASE_URL_def)
  moreover have "map (\<lambda>n. length (data (fixture_page n))) [0, 1, 2] = [100, 100, 7]"
    by (simp add: fixture_page_def)
  ultimately show ?thesis
    by (simp only: upt_join length_upt) simp
qed

text \<open>
  C10. The next-page reference of a body is followed exactly when \<^verbatim>\<open>next_page_url\<close> is
  present and truthy; the falsy values are \<^verbatim>\<open>null\<close>, \<^verbatim>\<open>false\<close>, \<^verbatim>\<open>0\<close>, the empty string,
  the empty list and the empty object. At a successful page whose reference is absent or
  falsy (the empty string included) the loop returns what it has gathered, with no
  further request. Whenever \<^verbatim>\<open>cf_get_all\<close> returns a list, the server has answered with
  pages of which the last, and only the last, has an absent or falsy reference. Against a
  sequence of pages, \<^verbatim>\<open>cf_get_all\<close> returns if and only if some page of the sequence has
  an absent or falsy reference; when every page has a truthy one, it never returns. It
  never returns either against any server that keeps answering with successful pages
  with truthy references (a cycle of references, for one): no number of pages stops it.
\<close>

theorem pagination_ends_exactly_at_falsy_next_page:
  fixes get :: "json \<Rightarrow> params option \<Rightarrow> 's \<Rightarrow> 'a reply \<times> 's"
    and seq :: "nat \<Rightarrow> 'b body"
  shows
  "(truthy (next_url b) \<longleftrightarrow> (\<exists>v. next_page_url b = Some v \<and> truthy v))
   \<and> (\<not> truthy v \<longleftrightarrow> v \<in> {JNull, JBool False, JNum 0, JStr [], JArr [], JObj []})
   \<and> (truthy url \<and> get url params (remote w) = (Response code (Some b), s)
        \<and> \<not> is_error_status code \<and> \<not> truthy (next_url b) \<longrightarrow>
        cf_get_loop get url params items w =
          Some (Inr (items @ data b), \<lparr>trace = trace w @ [Http_get url params], remote = s\<rparr>))
   \<and> (cf_get_all get path params w = Some (Inr xs, w') \<longrightarrow>
        (\<exists>pages. pages \<noteq> []
           \<and> served get (JStr (BASE_URL @ path)) params (remote w) pages = Some (remote w')
           \<and> (\<forall>p \<in> set (butlast pages). truthy (next_url p))
           \<and> \<not> truthy (next_url (last pages))
           \<and> xs = concat (map data pages)))
   \<and> (cf_get_all (scripted seq) path params u \<noteq> None
        \<longleftrightarrow> (\<exists>n\<ge>remote u. \<not> truthy (next_url (seq n))))
   \<and> ((\<forall>n\<ge>remote u. truthy (next_url (seq n))) \<longrightarrow>
        cf_get_all (scripted seq) path params u = None)
   \<and> ((\<forall>url params s. I url s \<longrightarrow>
           truthy url \<and> (\<exists>code b s'. get url params s = (Response code (Some b), s')
                             \<and> \<not> is_error_status code \<and> I (next_url b) s'))
        \<and> I (JStr (BASE_URL @ path)) (remote w) \<longrightarrow>
        cf_get_all get path params w = None)"
proof -
  have c1: "truthy (next_url b) \<longleftrightarrow> (\<exists>v. next_page_url b = Some v \<and> truthy v)"
    by (rule truthy_next_url)
  have c2: "\<not> truthy v \<longleftrightarrow> v \<in> {JNull, JBool False, JNum 0, JStr [], JArr [], JObj []}"
    by (rule falsy_values)
  have c3: "truthy url \<and> get url params (remote w) = (Response code (Some b), s)
        \<and> \<not> is_error_status code \<and> \<not> truthy (next_url b) \<longrightarrow>
        cf_get_loop get url params items w =
          Some (Inr (items @ data b), \<lparr>trace = trace w @ [Http_get url params], remote = s\<rparr>)"
    using loop_step_page [of url get params w code b s items]
      loop_stop [of "next_url b" get None "items @ data b"]
    by simp
  have c4: "cf_get_all get path params w = Some (Inr xs, w') \<longrightarrow>
        (\<exists>pages. pages \<noteq> []
           \<and> served get (JStr (BASE_URL @ path)) params (remote w) pages = Some (remote w')
           \<and> (\<forall>p \<in> set (butlast pages). truthy (next_url p))
           \<and> \<not> truthy (next_url (last pages))
           \<and> xs = concat (map data pages))"
    using loop_returned_pages [of get "JStr (BASE_URL @ path)" params "[]" w xs w']
      truthy_BASE_URL [of path]
    by (simp add: cf_get_all_def)
  have c5: "cf_get_all (scripted seq) path params u \<noteq> None
        \<longleftrightarrow> (\<exists>n\<ge>remote u. \<not> truthy (next_url (seq n)))"
    unfolding cf_get_all_def by (rule scripted_returns_iff) (rule truthy_BASE_URL)
  have c6: "(\<forall>n\<ge>remote u. truthy (next_url (seq n))) \<longrightarrow>
        cf_get_all (scripted seq) path params u = None"
    using c5 by blast
  have c7: "(\<forall>url params s. I url s \<longrightarrow>
           truthy url \<and> (\<exists>code b s'. get url params s = (Response code (Some b), s')
                             \<and> \<not> is_error_status code \<and> I (next_url b) s'))
        \<and> I (JStr (BASE_URL @ path)) (remote w) \<longrightarrow>
        cf_get_all get path params w = None"
    unfolding cf_get_all_def
    using loop_diverges [of I get "JStr (BASE_URL @ path)" w params "[]"]
    by blast
  from c1 c2 c3 c4 c5 c6 c7 show ?thesis
    by (intro conjI)
qed

theorem pagination_ends_exactly_at_falsy_next_page_witness:
  "cf_get_all fixture_cycle_get ''/entry'' None \<lparr>trace = [], remote = ()\<rparr> = None
   \<and> cf_get_loop fixture_get_entries (JStr ''https://api.us.cr4ce.com/entry'')
        (Some [(''category'', JStr ''Kgwrlowa''), (''per_page'', JNum 100)]) [] fixture_world =
       Some (Inr [\<lparr>entry_chapter_slug = ''B'', entry_status = ''submitted''\<rparr>],
             \<lparr>trace = [Http_get (JStr ''https://api.us.cr4ce.com/entry'')
                         (Some [(''category'', JStr ''Kgwrlowa''), (''per_page'', JNum 100)])],
              remote = 1\<rparr>)"
proof -
  let ?b = "\<lparr>data = [\<lparr>entry_chapter_slug = ''B'', entry_status = ''submitted''\<rparr>],
             next_page_url = Some (JStr [])\<rparr>"
  have cyc: "\<forall>url params s. truthy url \<longrightarrow>
           truthy url \<and> (\<exists>code b s'. fixture_cycle_get url params s = (Response code (Some b), s')
                             \<and> \<not> is_error_status code \<and> truthy (next_url b))"
    by (simp add: fixture_cycle_get_def is_error_status_def next_url_def)
  have start: "truthy (JStr (BASE_URL @ ''/entry''))"
    by (rule truthy_BASE_URL)
  note diverges = pagination_ends_exactly_at_falsy_next_page
    [where get = fixture_cycle_get and I = "\<lambda>url s. truthy url" and path = "''/entry''"
       and params = None and w = "\<lparr>trace = [], remote = ()\<rparr>",
     THEN conjunct2, THEN conjunct2, THEN conjunct2, THEN conjunct2, THEN conjunct2,
     THEN conjunct2]
  from diverges cyc start
  have none: "cf_get_all fixture_cycle_get ''/entry'' None \<lparr>trace = [], remote = ()\<rparr> = None"
    by simp
  have reply: "fixture_get_entries (JStr ''https://api.us.cr4ce.com/entry'')
        (Some [(''category'', JStr ''Kgwrlowa''), (''per_page'', JNum 100)]) (remote fixture_world)
        = (Response 200 (Some ?b), 1)"
    by (simp add: fixture_get_entries_def fixture_world_def)
  have stop: "\<not> truthy (next_url ?b)" and ok: "\<not> is_error_status 200"
    by (simp_all add: next_url_def is_error_status_def)
  note stops = pagination_ends_exactly_at_falsy_next_page
    [where get = fixture_get_entries and url = "JStr ''https://api.us.cr4ce.com/entry''"
       and params = "Some [(''category'', JStr ''Kgwrlowa''), (''per_page'', JNum 100)]"
       and w = fixture_world and code = 200 and b = ?b and s = 1 and items = "[]",
     THEN conjunct2, THEN conjunct2, THEN conjunct1]
  from stops reply stop ok
  have "cf_get_loop fixture_get_entries (JStr ''https://api.us.cr4ce.com/entry'')
        (Some [(''category'', JStr ''Kgwrlowa''), (''per_page'', JNum 100)]) [] fixture_world =
       Some (Inr [\<lparr>entry_chapter_slug = ''B'', entry_status = ''submitted''\<rparr>],
             \<lparr>trace = [Http_get (JStr ''https://api.us.cr4ce.com/entry'')
                         (Some [(''category'', JStr ''Kgwrlowa''), (''per_page'', JNum 100)])],
              remote = 1\<rparr>)"
    by (simp add: fixture_world_def)
  with none show ?thesis by simp
qed

section \<open>What a run leaves in the trace\<close>

lemma is_get_not_delivery: "is_get e \<Longrightarrow> \<not> is_delivery e"
  by (cases e) simp_all

lemma loop_trace:
  fixes get :: "json \<Rightarrow> params option \<Rightarrow> 's \<Rightarrow> 'a reply \<times> 's"
  assumes "cf_get_loop get url params items w = Some z"
  shows "\<exists>evs. trace (snd z) = trace w @ evs \<and> (\<forall>e \<in> set evs. is_get e)"
proof (rule cf_get_loop.raw_induct
    [where P = "\<lambda>(g :: json \<Rightarrow> params option \<Rightarrow> 's \<Rightarrow> 'a reply \<times> 's) u p (i :: 'a list)
                  (v :: 's world) (z :: (error + 'a list) \<times> 's world).
                  \<exists>evs. trace (snd z) = trace v @ evs \<and> (\<forall>e \<in> set evs. is_get e)",
     OF _ assms], goal_cases)
  case (1 cf g u p i v z)
  show ?case
  proof (cases "truthy u")
    case False
    with "1"(2) have "trace (snd z) = trace v @ []" by auto
    then show ?thesis by (intro exI [where x = "[]"]) simp
  next
    case True
    obtain r s where reply: "g u p (remote v) = (r, s)" by (cases "g u p (remote v)")
    let ?v1 = "\<lparr>trace = trace v @ [Http_get u p], remote = s\<rparr>"
    from "1"(2) True reply
    consider "snd z = ?v1"
      | b where "cf g (next_url b) None (i @ data b) ?v1 = Some z"
      by (auto simp add: Let_def split: reply.splits option.splits if_splits)
    then show ?thesis
    proof cases
      case 1
      then have "trace (snd z) = trace v @ [Http_get u p]" by simp
      then show ?thesis by (intro exI [where x = "[Http_get u p]"]) simp
    next
      case 2
      from "1"(1) [OF 2] obtain evs where "trace (snd z) = trace ?v1 @ evs"
        and "\<forall>e \<in> set evs. is_get e"
        by blast
      then have "trace (snd z) = trace v @ (Http_get u p # evs)
                 \<and> (\<forall>e \<in> set (Http_get u p # evs). is_get e)"
        by simp
      then show ?thesis by (rule exI)
    qed
  qed
qed

lemma cf_get_all_trace:
  assumes "cf_get_all get path params w = Some (r, w')"
  shows "\<exists>evs. trace w' = trace w @ evs \<and> (\<forall>e \<in> set evs. \<not> is_delivery e)"
  using loop_trace [of get "JStr (BASE_URL @ path)" params "[]" w "(r, w')"] assms
    is_get_not_delivery
  unfolding cf_get_all_def by fastforce

lemma fetch_chapters_trace:
  assumes "fetch_chapters env w = Some (r, w')"
  shows "\<exists>evs. trace w' = trace w @ evs \<and> (\<forall>e \<in> set evs. \<not> is_delivery e)"
proof -
  let ?ps = "Some [(''status'', JStr ''active''), (''per_page'', JNum 100)]"
  from assms obtain r0 w0 where
    f: "cf_get_all (get_chapters env) ''/chapter'' ?ps w = Some (r0, w0)"
    by (cases "cf_get_all (get_chapters env) ''/chapter'' ?ps w")
      (auto simp add: fetch_chapters_def)
  from cf_get_all_trace [OF f] obtain evs where
    evs: "trace w0 = trace w @ evs" "\<forall>e \<in> set evs. \<not> is_delivery e"
    by blast
  from assms f have "w' = w0 \<or> (\<exists>n. w' = emit (Log INFO (Loaded_chapters n)) w0)"
    by (cases r0) (auto simp add: fetch_chapters_def Let_def)
  then show ?thesis
  proof
    assume "w' = w0"
    with evs show ?thesis by blast
  next
    assume "\<exists>n. w' = emit (Log INFO (Loaded_chapters n)) w0"
    then obtain n where "w' = emit (Log INFO (Loaded_chapters n)) w0" ..
    with evs have "trace w' = trace w @ (evs @ [Log INFO (Loaded_chapters n)])
        \<and> (\<forall>e \<in> set (evs @ [Log INFO (Loaded_chapters n)]). \<not> is_delivery e)"
      by (simp add: emit_def)
    then show ?thesis by (rule exI)
  qed
qed

lemma gather_entries_trace:
  assumes "gather_entries env category_slug w = Some (r, w')"
  shows "\<exists>evs. trace w' = trace w @ evs \<and> (\<forall>e \<in> set evs. \<not> is_delivery e)"
proof -
  from assms cf_get_all_trace obtain evs where
    "trace w' = trace (emit (Log INFO (Pulling_entries category_slug)) w) @ evs"
    and "\<forall>e \<in> set evs. \<not> is_delivery e"
    unfolding gather_entries_def by blast
  then have "trace w' = trace w @ (Log INFO (Pulling_entries category_slug) # evs)
      \<and> (\<forall>e \<in> set (Log INFO (Pulling_entries category_slug) # evs). \<not> is_delivery e)"
    by (simp add: emit_def)
  then show ?thesis by (rule exI)
qed

lemma build_counts_trace:
  assumes "build_counts env chapters w = Some (r, w')"
  shows "\<exists>evs. trace w' = trace w @ evs \<and> (\<forall>e \<in> set evs. \<not> is_delivery e)"
proof -
  from assms obtain r1 w1 where
    g1: "gather_entries env CATEGORY_SLUGS_13_17 w = Some (r1, w1)"
    by (cases "gather_entries env CATEGORY_SLUGS_13_17 w") (auto simp add: build_counts_def)
  from gather_entries_trace [OF g1] obtain evs1 where
    evs1: "trace w1 = trace w @ evs1" "\<forall>e \<in> set evs1. \<not> is_delivery e"
    by blast
  show ?thesis
  proof (cases r1)
    case (Inl exc)
    with assms g1 have "w' = w1" by (simp add: build_counts_def)
    with evs1 show ?thesis by blast
  next
    case (Inr es13)
    with assms g1 obtain r2 where
      g2: "gather_entries env CATEGORY_SLUGS_above18 w1 = Some (r2, w')"
      by (cases "gather_entries env CATEGORY_SLUGS_above18 w1")
        (auto simp add: build_counts_def split: sum.splits)
    from gather_entries_trace [OF g2] obtain evs2 where
      "trace w' = trace w1 @ evs2" "\<forall>e \<in> set evs2. \<not> is_delivery e"
      by blast
    with evs1 have "trace w' = trace w @ (evs1 @ evs2)
        \<and> (\<forall>e \<in> set (evs1 @ evs2). \<not> is_delivery e)"
      by auto
    then show ?thesis by (rule exI)
  qed
qed

lemma main_try_fetch_fails:
  "fetch_chapters env w = Some (Inl exc, w1) \<Longrightarrow> main_try env w = Some (Inl exc, w1)"
  by (simp add: main_try_def)

lemma main_try_build_fails:
  "fetch_chapters env w = Some (Inr chapters, w0) \<Longrightarrow>
   build_counts env chapters w0 = Some (Inl exc, w1) \<Longrightarrow>
   main_try env w = Some (Inl exc, w1)"
  by (simp add: main_try_def)

lemma main_caught:
  "API_KEY env \<noteq> [] \<Longrightarrow> main_try env (emit (Log INFO Run_start) w) = Some (Inl exc, w1) \<Longrightarrow>
   main env w = Some (emit (Log INFO Run_end) (emit (Log ERROR (Run_failed exc)) w1))"
  by (simp add: main_def)

lemma fetch_failure_aborts_run:
  assumes key: "API_KEY env \<noteq> []"
    and fail: "fetch_chapters env (emit (Log INFO Run_start) w) = Some (Inl exc, w1)
      \<or> (\<exists>chapters w0. fetch_chapters env (emit (Log INFO Run_start) w) = Some (Inr chapters, w0)
            \<and> build_counts env chapters w0 = Some (Inl exc, w1))"
  shows "\<exists>evs. main env w =
            Some \<lparr>trace = trace w @ [Log INFO Run_start] @ evs
                            @ [Log ERROR (Run_failed exc), Log INFO Run_end],
                  remote = remote w1\<rparr>
          \<and> (\<forall>e \<in> set evs. \<not> is_delivery e)"
proof -
  let ?w0 = "emit (Log INFO Run_start) w"
  have "main_try env ?w0 = Some (Inl exc, w1)
        \<and> (\<exists>evs. trace w1 = trace ?w0 @ evs \<and> (\<forall>e \<in> set evs. \<not> is_delivery e))"
    using fail
  proof
    assume f: "fetch_chapters env ?w0 = Some (Inl exc, w1)"
    from main_try_fetch_fails [OF f] fetch_chapters_trace [OF f] show ?thesis by simp
  next
    assume "\<exists>chapters w0. fetch_chapters env ?w0 = Some (Inr chapters, w0)
            \<and> build_counts env chapters w0 = Some (Inl exc, w1)"
    then obtain chapters w0 where f: "fetch_chapters env ?w0 = Some (Inr chapters, w0)"
      and b: "build_counts env chapters w0 = Some (Inl exc, w1)"
      by blast
    from fetch_chapters_trace [OF f] obtain evs1 where
      evs1: "trace w0 = trace ?w0 @ evs1" "\<forall>e \<in> set evs1. \<not> is_delivery e"
      by blast
    from build_counts_trace [OF b] obtain evs2 where
      evs2: "trace w1 = trace w0 @ evs2" "\<forall>e \<in> set evs2. \<not> is_delivery e"
      by blast
    from evs1 evs2 have "trace w1 = trace ?w0 @ (evs1 @ evs2)
        \<and> (\<forall>e \<in> set (evs1 @ evs2). \<not> is_delivery e)"
      by auto
    then have "\<exists>evs. trace w1 = trace ?w0 @ evs \<and> (\<forall>e \<in> set evs. \<not> is_delivery e)"
      by (rule exI)
    with main_try_build_fails [OF f b] show ?thesis by simp
  qed
  then obtain evs where t: "main_try env ?w0 = Some (Inl exc, w1)"
    and evs: "trace w1 = trace ?w0 @ evs" "\<forall>e \<in> set evs. \<not> is_delivery e"
    by blast
  from main_caught [OF key t] evs
  have "main env w =
            Some \<lparr>trace = trace w @ [Log INFO Run_start] @ evs
                            @ [Log ERROR (Run_failed exc), Log INFO Run_end],
                  remote = remote w1\<rparr>
          \<and> (\<forall>e \<in> set evs. \<not> is_delivery e)"
    by (simp add: emit_def)
  then show ?thesis by (rule exI)
qed

text \<open>
  C5. When, after any number of successful pages, the next page of a fetch answers with
  an error status, \<^verbatim>\<open>cf_get_all\<close> raises the HTTP error: it returns no records, not those
  of the pages before either, and the request of the failing page is the last one it
  sends. \<^verbatim>\<open>fetch_chapters\<close> and \<^verbatim>\<open>build_counts\<close> (in either of its two fetches) raise what
  their fetch raises. When the error leaves chapter loading or aggregation, \<^verbatim>\<open>main\<close> ends:
  after the start marker and the events of the fetches, none of which writes a workbook
  or posts one, it logs the failure and the end marker.
\<close>

theorem remote_error_aborts_fetch_and_run:
  "(served get (JStr (BASE_URL @ path)) params (remote w) pages = Some s1
      \<and> (\<forall>p \<in> set pages. truthy (next_url p))
      \<and> get (url_after (JStr (BASE_URL @ path)) pages) (params_after params pages) s1
          = (Response code payload, s2)
      \<and> is_error_status code \<longrightarrow>
      cf_get_all get path params w =
        Some (Inl (HTTP_error code),
              \<lparr>trace = trace w @ page_requests (JStr (BASE_URL @ path)) params pages
                         @ [Http_get (url_after (JStr (BASE_URL @ path)) pages)
                              (params_after params pages)],
               remote = s2\<rparr>))
   \<and> (cf_get_all (get_chapters env) ''/chapter''
          (Some [(''status'', JStr ''active''), (''per_page'', JNum 100)]) v = Some (Inl exc, v1) \<longrightarrow>
        fetch_chapters env v = Some (Inl exc, v1))
   \<and> (gather_entries env CATEGORY_SLUGS_13_17 v = Some (Inl exc, v1) \<longrightarrow>
        build_counts env chapters v = Some (Inl exc, v1))
   \<and> (gather_entries env CATEGORY_SLUGS_13_17 v = Some (Inr es13, v1)
        \<and> gather_entries env CATEGORY_SLUGS_above18 v1 = Some (Inl exc, v2) \<longrightarrow>
        build_counts env chapters v = Some (Inl exc, v2))
   \<and> (API_KEY env \<noteq> []
        \<and> (fetch_chapters env (emit (Log INFO Run_start) u) = Some (Inl exc, u1)
            \<or> (\<exists>chapters u0.
                  fetch_chapters env (emit (Log INFO Run_start) u) = Some (Inr chapters, u0)
                  \<and> build_counts env chapters u0 = Some (Inl exc, u1))) \<longrightarrow>
        (\<exists>evs. main env u =
                  Some \<lparr>trace = trace u @ [Log INFO Run_start] @ evs
                                  @ [Log ERROR (Run_failed exc), Log INFO Run_end],
                        remote = remote u1\<rparr>
                \<and> (\<forall>e \<in> set evs. \<not> is_delivery e)))"
proof -
  have a: "served get (JStr (BASE_URL @ path)) params (remote w) pages = Some s1
      \<and> (\<forall>p \<in> set pages. truthy (next_url p))
      \<and> get (url_after (JStr (BASE_URL @ path)) pages) (params_after params pages) s1
          = (Response code payload, s2)
      \<and> is_error_status code \<longrightarrow>
      cf_get_all get path params w =
        Some (Inl (HTTP_error code),
              \<lparr>trace = trace w @ page_requests (JStr (BASE_URL @ path)) params pages
                         @ [Http_get (url_after (JStr (BASE_URL @ path)) pages)
                              (params_after params pages)],
               remote = s2\<rparr>)"
    unfolding cf_get_all_def
    using loop_fails_after_pages [OF truthy_BASE_URL, of get path params w pages s1 code payload s2 "[]"]
    by blast
  have b: "cf_get_all (get_chapters env) ''/chapter''
          (Some [(''status'', JStr ''active''), (''per_page'', JNum 100)]) v = Some (Inl exc, v1) \<longrightarrow>
        fetch_chapters env v = Some (Inl exc, v1)"
    by (simp add: fetch_chapters_def)
  have c: "gather_entries env CATEGORY_SLUGS_13_17 v = Some (Inl exc, v1) \<longrightarrow>
        build_counts env chapters v = Some (Inl exc, v1)"
    by (simp add: build_counts_def)
  have d: "gather_entries env CATEGORY_SLUGS_13_17 v = Some (Inr es13, v1)
        \<and> gather_entries env CATEGORY_SLUGS_above18 v1 = Some (Inl exc, v2) \<longrightarrow>
        build_counts env chapters v = Some (Inl exc, v2)"
    by (simp add: build_counts_def)
  have e: "API_KEY env \<noteq> []
        \<and> (fetch_chapters env (emit (Log INFO Run_start) u) = Some (Inl exc, u1)
            \<or> (\<exists>chapters u0.
                  fetch_chapters env (emit (Log INFO Run_start) u) = Some (Inr chapters, u0)
                  \<and> build_counts env chapters u0 = Some (Inl exc, u1))) \<longrightarrow>
        (\<exists>evs. main env u =
                  Some \<lparr>trace = trace u @ [Log INFO Run_start] @ evs
                                  @ [Log ERROR (Run_failed exc), Log INFO Run_end],
                        remote = remote u1\<rparr>
                \<and> (\<forall>e \<in> set evs. \<not> is_delivery e))"
    using fetch_failure_aborts_run [of env u exc u1] by blast
  from a b c d e show ?thesis by (intro conjI)
qed

lemma fixture_failing_fetch_chapters:
  "fetch_chapters fixture_env_failing (emit (Log INFO Run_start) fixture_world) =
     Some (Inr fixture_chapters,
           \<lparr>trace =
              [Log INFO Run_start,
               Http_get (JStr ''https://api.us.cr4ce.com/chapter'')
                 (Some [(''status'', JStr ''active''), (''per_page'', JNum 100)]),
               Log INFO (Loaded_chapters 2)],
            remote = 1\<rparr>)"
proof -
  have regions: "chapter_to_region ''Brazil'' = ''AMR''" "chapter_to_region ''China'' = ''PRC''"
    by code_simp+
  have "cf_get_all (get_chapters fixture_env_failing) ''/chapter''
          (Some [(''status'', JStr ''active''), (''per_page'', JNum 100)])
          (emit (Log INFO Run_start) fixture_world) =
        Some (Inr [\<lparr>item_slug = ''A'', item_name_en_GB = ''Brazil''\<rparr>,
                   \<lparr>item_slug = ''B'', item_name_en_GB = ''China''\<rparr>],
              \<lparr>trace =
                 [Log INFO Run_start,
                  Http_get (JStr ''https://api.us.cr4ce.com/chapter'')
                    (Some [(''status'', JStr ''active''), (''per_page'', JNum 100)])],
               remote = 1\<rparr>)"
    by (simp add: fixture_env_failing_def fixture_env_def fixture_world_def
        fixture_get_chapters_def BASE_URL_def cf_get_all_def emit_def cf_get_loop.simps
        is_error_status_def next_url_def)
  then show ?thesis
    by (simp add: fetch_chapters_def store_chapter_def regions fixture_chapters_def emit_def)
qed

lemma fixture_failing_build_counts:
  "build_counts fixture_env_failing fixture_chapters
     \<lparr>trace =
        [Log INFO Run_start,
         Http_get (JStr ''https://api.us.cr4ce.com/chapter'')
           (Some [(''status'', JStr ''active''), (''per_page'', JNum 100)]),
         Log INFO (Loaded_chapters 2)],
      remote = 1\<rparr> =
   Some (Inl (HTTP_error 500),
         \<lparr>trace =
            [Log INFO Run_start,
             Http_get (JStr ''https://api.us.cr4ce.com/chapter'')
               (Some [(''status'', JStr ''active''), (''per_page'', JNum 100)]),
             Log INFO (Loaded_chapters 2),
             Log INFO (Pulling_entries ''ZLgyzemp''),
             Http_get (JStr ''https://api.us.cr4ce.com/entry'')
               (Some [(''category'', JStr ''ZLgyzemp''), (''per_page'', JNum 100)]),
             Http_get (JStr ''https://api.us.cr4ce.com/entry?page=2'') None],
          remote = 3\<rparr>)"
  by (simp add: build_counts_def gather_entries_def fixture_env_failing_def fixture_env_def
      fixture_get_entries_def BASE_URL_def CATEGORY_SLUGS_13_17_def cf_get_all_def emit_def
      cf_get_loop.simps is_error_status_def next_url_def)

theorem remote_error_aborts_fetch_and_run_witness:
  "cf_get_all (get_entries fixture_env_failing) ''/entry''
     (Some [(''category'', JStr ''ZLgyzemp''), (''per_page'', JNum 100)]) fixture_world =
     Some (Inl (HTTP_error 500),
           \<lparr>trace =
              [Http_get (JStr ''https://api.us.cr4ce.com/entry'')
                 (Some [(''category'', JStr ''ZLgyzemp''), (''per_page'', JNum 100)]),
               Http_get (JStr ''https://api.us.cr4ce.com/entry?page=2'') None],
            remote = 2\<rparr>)
   \<and> (\<exists>evs. main fixture_env_failing fixture_world =
               Some \<lparr>trace = [Log INFO Run_start] @ evs
                               @ [Log ERROR (Run_failed (HTTP_error 500)), Log INFO Run_end],
                     remote = 3\<rparr>
             \<and> (\<forall>e \<in> set evs. \<not> is_delivery e))"
proof -
  let ?ps = "Some [(''category'', JStr ''ZLgyzemp''), (''per_page'', JNum 100)]"
  let ?p1 = "\<lparr>data = [\<lparr>entry_chapter_slug = ''A'', entry_status = ''submitted''\<rparr>,
                       \<lparr>entry_chapter_slug = ''A'', entry_status = ''pending''\<rparr>],
              next_page_url = Some (JStr ''https://api.us.cr4ce.com/entry?page=2'')\<rparr>"
  have nxt: "next_url ?p1 = JStr ''https://api.us.cr4ce.com/entry?page=2''"
    by (simp add: next_url_def)
  have srv: "served (get_entries fixture_env_failing) (JStr (BASE_URL @ ''/entry'')) ?ps
               (remote fixture_world) [?p1] = Some 1"
    by (simp add: fixture_env_failing_def fixture_env_def fixture_get_entries_def
        fixture_world_def BASE_URL_def is_error_status_def)
  have tr: "\<forall>p \<in> set [?p1]. truthy (next_url p)"
    by (simp add: nxt)
  have bad: "get_entries fixture_env_failing (url_after (JStr (BASE_URL @ ''/entry'')) [?p1])
               (params_after ?ps [?p1]) 1 = (Response 500 None, 2)"
    by (simp add: url_after_def params_after_def nxt fixture_env_failing_def fixture_env_def)
  have err: "is_error_status 500"
    by (simp add: is_error_status_def)
  note fetch = remote_error_aborts_fetch_and_run
    [where get = "get_entries fixture_env_failing" and path = "''/entry''" and params = ?ps
       and w = fixture_world and pages = "[?p1]" and ?s1.0 = 1 and code = 500
       and payload = None and ?s2.0 = 2, THEN conjunct1]
  from fetch srv tr bad err
  have one: "cf_get_all (get_entries fixture_env_failing) ''/entry'' ?ps fixture_world =
     Some (Inl (HTTP_error 500),
           \<lparr>trace =
              [Http_get (JStr ''https://api.us.cr4ce.com/entry'') ?ps,
               Http_get (JStr ''https://api.us.cr4ce.com/entry?page=2'') None],
            remote = 2\<rparr>)"
    by (simp add: url_after_def params_after_def nxt fixture_world_def BASE_URL_def)
  have key: "API_KEY fixture_env_failing \<noteq> []"
    by (simp add: fixture_env_failing_def fixture_env_def)
  let ?failed = "\<lparr>trace =
            [Log INFO Run_start,
             Http_get (JStr ''https://api.us.cr4ce.com/chapter'')
               (Some [(''status'', JStr ''active''), (''per_page'', JNum 100)]),
             Log INFO (Loaded_chapters 2),
             Log INFO (Pulling_entries ''ZLgyzemp''),
             Http_get (JStr ''https://api.us.cr4ce.com/entry'')
               (Some [(''category'', JStr ''ZLgyzemp''), (''per_page'', JNum 100)]),
             Http_get (JStr ''https://api.us.cr4ce.com/entry?page=2'') None],
          remote = 3::nat\<rparr>"
  note run = remote_error_aborts_fetch_and_run
    [where env = fixture_env_failing and u = fixture_world and exc = "HTTP_error 500"
       and ?u1.0 = ?failed,
     THEN conjunct2, THEN conjunct2, THEN conjunct2, THEN conjunct2]
  from run key fixture_failing_fetch_chapters fixture_failing_build_counts
  have two: "\<exists>evs. main fixture_env_failing fixture_world =
               Some \<lparr>trace = [Log INFO Run_start] @ evs
                               @ [Log ERROR (Run_failed (HTTP_error 500)), Log INFO Run_end],
                     remote = 3\<rparr>
             \<and> (\<forall>e \<in> set evs. \<not> is_delivery e)"
    by (simp add: fixture_world_def)
  from one two show ?thesis by (rule conjI)
qed

lemma make_workbook_trace:
  assumes "make_workbook env rows w = (r, w')"
  shows "\<exists>evs. trace w' = trace w @ evs"
  using assms
  by (auto simp add: make_workbook_def Let_def split: prod.splits if_splits)

lemma send_to_telegram_trace:
  assumes "send_to_telegram env file_path w = (r, w')"
  shows "\<exists>evs. trace w' = trace w @ evs"
proof -
  from assms have "trace w' = trace w @ []
      \<or> (\<exists>ev. trace w' = trace w @ [ev])
      \<or> (\<exists>ev1 ev2. trace w' = trace w @ [ev1, ev2])"
    by (auto simp add: send_to_telegram_def Let_def emit_def
        split: prod.splits if_splits post_reply.splits)
  then show ?thesis by blast
qed

lemma main_try_trace:
  assumes "main_try env w = Some (r, w')"
  shows "\<exists>evs. trace w' = trace w @ evs"
proof -
  from assms obtain r1 w1 where f: "fetch_chapters env w = Some (r1, w1)"
    by (cases "fetch_chapters env w") (auto simp add: main_try_def)
  from fetch_chapters_trace [OF f] obtain evs1 where evs1: "trace w1 = trace w @ evs1"
    by blast
  show ?thesis
  proof (cases r1)
    case (Inl exc)
    with assms f have "w' = w1" by (simp add: main_try_def)
    with evs1 show ?thesis by blast
  next
    case chapters: (Inr chapters)
    with assms f obtain r2 w2 where b: "build_counts env chapters w1 = Some (r2, w2)"
      by (cases "build_counts env chapters w1") (auto simp add: main_try_def)
    from build_counts_trace [OF b] obtain evs2 where evs2: "trace w2 = trace w1 @ evs2"
      by blast
    show ?thesis
    proof (cases r2)
      case (Inl exc)
      with assms f b chapters have "w' = w2" by (simp add: main_try_def)
      with evs1 evs2 show ?thesis by simp
    next
      case counts: (Inr counts)
      show ?thesis
      proof (cases "compose_rows chapters counts")
        case (Inl exc)
        with assms f b chapters counts have "w' = w2" by (simp add: main_try_def)
        with evs1 evs2 show ?thesis by simp
      next
        case rows: (Inr rows)
        obtain r3 w3 where m: "make_workbook env rows w2 = (r3, w3)"
          by (cases "make_workbook env rows w2")
        from make_workbook_trace [OF m] obtain evs3 where evs3: "trace w3 = trace w2 @ evs3"
          by blast
        show ?thesis
        proof (cases r3)
          case (Inl exc)
          with assms f b chapters counts rows m have "w' = w3" by (simp add: main_try_def)
          with evs1 evs2 evs3 show ?thesis by simp
        next
          case (Inr wb_path)
          with assms f b chapters counts rows m
          have s: "send_to_telegram env wb_path (emit (Log INFO (Workbook_saved wb_path)) w3)
                   = (r, w')"
            by (simp add: main_try_def)
          from send_to_telegram_trace [OF s] obtain evs4 where
            "trace w' = trace (emit (Log INFO (Workbook_saved wb_path)) w3) @ evs4"
            by blast
          with evs1 evs2 evs3 show ?thesis by (simp add: emit_def)
        qed
      qed
    qed
  qed
qed

lemma main_try_None_iff:
  "main_try env w = None \<longleftrightarrow>
     fetch_chapters env w = None
     \<or> (\<exists>chapters w1. fetch_chapters env w = Some (Inr chapters, w1)
           \<and> build_counts env chapters w1 = None)"
  by (auto simp add: main_try_def split: option.splits sum.splits prod.splits)

lemma main_bracketed:
  assumes "API_KEY env \<noteq> []" and "main env w = Some w'"
  shows "\<exists>mid. trace w' = trace w @ [Log INFO Run_start] @ mid @ [Log INFO Run_end]"
proof -
  let ?w0 = "emit (Log INFO Run_start) w"
  from assms obtain r w1 where t: "main_try env ?w0 = Some (r, w1)"
    by (cases "main_try env ?w0") (auto simp add: main_def)
  from main_try_trace [OF t] obtain evs where evs: "trace w1 = trace ?w0 @ evs"
    by blast
  show ?thesis
  proof (cases r)
    case (Inl exc)
    with assms t have "w' = emit (Log INFO Run_end) (emit (Log ERROR (Run_failed exc)) w1)"
      by (simp add: main_def)
    with evs have "trace w' = trace w @ [Log INFO Run_start]
                     @ (evs @ [Log ERROR (Run_failed exc)]) @ [Log INFO Run_end]"
      by (simp add: emit_def)
    then show ?thesis by (rule exI)
  next
    case (Inr u)
    with assms t have "w' = emit (Log INFO Run_end) w1"
      by (simp add: main_def)
    with evs have "trace w' = trace w @ [Log INFO Run_start] @ evs @ [Log INFO Run_end]"
      by (simp add: emit_def)
    then show ?thesis by (rule exI)
  qed
qed

text \<open>
  C8, as amended. Every run that has an API key and ends, whether the \<^verbatim>\<open>try\<close> block
  succeeded or an exception was caught, leaves a trace that starts with the start
  marker and ends with the end marker. Such a run fails to end only when a fetch never
  returns. A run without an API key logs the one error line and neither marker.
\<close>

theorem run_with_api_key_is_bracketed_by_markers:
  "(API_KEY env \<noteq> [] \<and> main env w = Some w' \<longrightarrow>
      (\<exists>mid. trace w' = trace w @ [Log INFO Run_start] @ mid @ [Log INFO Run_end]))
   \<and> (API_KEY env \<noteq> [] \<longrightarrow>
        (main env w = None \<longleftrightarrow>
           fetch_chapters env (emit (Log INFO Run_start) w) = None
           \<or> (\<exists>chapters w1.
                 fetch_chapters env (emit (Log INFO Run_start) w) = Some (Inr chapters, w1)
                 \<and> build_counts env chapters w1 = None)))
   \<and> (API_KEY env = [] \<longrightarrow>
        main env w = Some \<lparr>trace = trace w @ [Log ERROR Api_key_missing], remote = remote w\<rparr>)"
proof -
  have a: "API_KEY env \<noteq> [] \<and> main env w = Some w' \<longrightarrow>
      (\<exists>mid. trace w' = trace w @ [Log INFO Run_start] @ mid @ [Log INFO Run_end])"
    using main_bracketed [of env w w'] by blast
  have "API_KEY env \<noteq> [] \<longrightarrow>
        (main env w = None \<longleftrightarrow> main_try env (emit (Log INFO Run_start) w) = None)"
    by (auto simp add: main_def split: option.splits sum.splits prod.splits)
  then have b: "API_KEY env \<noteq> [] \<longrightarrow>
        (main env w = None \<longleftrightarrow>
           fetch_chapters env (emit (Log INFO Run_start) w) = None
           \<or> (\<exists>chapters w1.
                 fetch_chapters env (emit (Log INFO Run_start) w) = Some (Inr chapters, w1)
                 \<and> build_counts env chapters w1 = None))"
    by (simp only: main_try_None_iff)
  have c: "API_KEY env = [] \<longrightarrow>
        main env w = Some \<lparr>trace = trace w @ [Log ERROR Api_key_missing], remote = remote w\<rparr>"
    by (simp add: main_def emit_def)
  from a b c show ?thesis by (intro conjI)
qed

text \<open>
  The claim C8 as stated fails on the guard at the top of \<^verbatim>\<open>main\<close>, which returns before
  the start marker: the run without an API key logs the error line alone.
\<close>

theorem missing_api_key_run_has_no_markers:
  "main fixture_env_no_key fixture_world =
     Some \<lparr>trace = [Log ERROR Api_key_missing], remote = 0\<rparr>
   \<and> Log INFO Run_start \<notin> set [Log ERROR Api_key_missing]
   \<and> Log INFO Run_end \<notin> set [Log ERROR Api_key_missing]"
  by (simp add: main_def fixture_env_no_key_def fixture_env_def fixture_world_def emit_def)

text \<open>The successful run of the fixture, step by step.\<close>

lemma fixture_fetch_chapters:
  "fetch_chapters fixture_env (emit (Log INFO Run_start) fixture_world) =
     Some (Inr fixture_chapters,
           \<lparr>trace =
              [Log INFO Run_start,
               Http_get (JStr ''https://api.us.cr4ce.com/chapter'')
                 (Some [(''status'', JStr ''active''), (''per_page'', JNum 100)]),
               Log INFO (Loaded_chapters 2)],
            remote = 1\<rparr>)"
proof -
  have regions: "chapter_to_region ''Brazil'' = ''AMR''" "chapter_to_region ''China'' = ''PRC''"
    by code_simp+
  have "cf_get_all (get_chapters fixture_env) ''/chapter''
          (Some [(''status'', JStr ''active''), (''per_page'', JNum 100)])
          (emit (Log INFO Run_start) fixture_world) =
        Some (Inr [\<lparr>item_slug = ''A'', item_name_en_GB = ''Brazil''\<rparr>,
                   \<lparr>item_slug = ''B'', item_name_en_GB = ''China''\<rparr>],
              \<lparr>trace =
                 [Log INFO Run_start,
                  Http_get (JStr ''https://api.us.cr4ce.com/chapter'')
                    (Some [(''status'', JStr ''active''), (''per_page'', JNum 100)])],
               remote = 1\<rparr>)"
    by (simp add: fixture_env_def fixture_world_def
        fixture_get_chapters_def BASE_URL_def cf_get_all_def emit_def cf_get_loop.simps
        is_error_status_def next_url_def)
  then show ?thesis
    by (simp add: fetch_chapters_def store_chapter_def regions fixture_chapters_def emit_def)
qed

lemma fixture_build_counts:
  "build_counts fixture_env fixture_chapters
     \<lparr>trace =
        [Log INFO Run_start,
         Http_get (JStr ''https://api.us.cr4ce.com/chapter'')
           (Some [(''status'', JStr ''active''), (''per_page'', JNum 100)]),
         Log INFO (Loaded_chapters 2)],
      remote = 1\<rparr> =
   Some (Inr (fold count_above18
                [\<lparr>entry_chapter_slug = ''B'', entry_status = ''submitted''\<rparr>]
                (fold count_13_17
                   [\<lparr>entry_chapter_slug = ''A'', entry_status = ''submitted''\<rparr>,
                    \<lparr>entry_chapter_slug = ''A'', entry_status = ''pending''\<rparr>,
                    \<lparr>entry_chapter_slug = ''C'', entry_status = ''submitted''\<rparr>]
                   (init_counts fixture_chapters))),
         \<lparr>trace =
            [Log INFO Run_start,
             Http_get (JStr ''https://api.us.cr4ce.com/chapter'')
               (Some [(''status'', JStr ''active''), (''per_page'', JNum 100)]),
             Log INFO (Loaded_chapters 2),
             Log INFO (Pulling_entries ''ZLgyzemp''),
             Http_get (JStr ''https://api.us.cr4ce.com/entry'')
               (Some [(''category'', JStr ''ZLgyzemp''), (''per_page'', JNum 100)]),
             Http_get (JStr ''https://api.us.cr4ce.com/entry?page=2'') None,
             Log INFO (Pulling_entries ''Kgwrlowa''),
             Http_get (JStr ''https://api.us.cr4ce.com/entry'')
               (Some [(''category'', JStr ''Kgwrlowa''), (''per_page'', JNum 100)])],
          remote = 4\<rparr>)"
  by (simp add: build_counts_def gather_entries_def fixture_env_def
      fixture_get_entries_def BASE_URL_def CATEGORY_SLUGS_13_17_def CATEGORY_SLUGS_above18_def
      cf_get_all_def emit_def cf_get_loop.simps is_error_status_def next_url_def)

lemma fixture_compose_rows:
  "compose_rows fixture_chapters
     (fold count_above18
        [\<lparr>entry_chapter_slug = ''B'', entry_status = ''submitted''\<rparr>]
        (fold count_13_17
           [\<lparr>entry_chapter_slug = ''A'', entry_status = ''submitted''\<rparr>,
            \<lparr>entry_chapter_slug = ''A'', entry_status = ''pending''\<rparr>,
            \<lparr>entry_chapter_slug = ''C'', entry_status = ''submitted''\<rparr>]
           (init_counts fixture_chapters))) =
   Inr [\<lparr>No = 1, Region = ''AMR'', Chapter_Name = ''Brazil'',
         Years_13_17_Submitted = 1, Years_13_17_In_Progress = 1,
         Above_18_Years_Submitted = 0, Above_18_Years_In_Progress = 0, Total = 2\<rparr>,
        \<lparr>No = 2, Region = ''PRC'', Chapter_Name = ''China'',
         Years_13_17_Submitted = 0, Years_13_17_In_Progress = 0,
         Above_18_Years_Submitted = 1, Above_18_Years_In_Progress = 0, Total = 1\<rparr>]"
proof -
  define counts where "counts = fold count_above18
        [\<lparr>entry_chapter_slug = ''B'', entry_status = ''submitted''\<rparr>]
        (fold count_13_17
           [\<lparr>entry_chapter_slug = ''A'', entry_status = ''submitted''\<rparr>,
            \<lparr>entry_chapter_slug = ''A'', entry_status = ''pending''\<rparr>,
            \<lparr>entry_chapter_slug = ''C'', entry_status = ''submitted''\<rparr>]
           (init_counts fixture_chapters))"
  have keys:
    "row_key (''A'', \<lparr>meta_name = ''Brazil'', meta_region = ''AMR''\<rparr>) = (''AMR'', ''brazil'')"
    "row_key (''B'', \<lparr>meta_name = ''China'', meta_region = ''PRC''\<rparr>) = (''PRC'', ''china'')"
    by code_simp+
  have order: "sort_key row_key fixture_chapters = fixture_chapters"
    by (simp add: fixture_chapters_def keys)
  have a: "counts ''A'' = Some \<lparr>c13_sub = 1, c13_prog = 1, c18_sub = 0, c18_prog = 0\<rparr>"
    and b: "counts ''B'' = Some \<lparr>c13_sub = 0, c13_prog = 0, c18_sub = 1, c18_prog = 0\<rparr>"
    unfolding counts_def
    by (simp_all only: tally_closed_form) (simp_all add: fixture_chapters_def)
  have "compose_rows fixture_chapters counts =
   Inr [\<lparr>No = 1, Region = ''AMR'', Chapter_Name = ''Brazil'',
         Years_13_17_Submitted = 1, Years_13_17_In_Progress = 1,
         Above_18_Years_Submitted = 0, Above_18_Years_In_Progress = 0, Total = 2\<rparr>,
        \<lparr>No = 2, Region = ''PRC'', Chapter_Name = ''China'',
         Years_13_17_Submitted = 0, Years_13_17_In_Progress = 0,
         Above_18_Years_Submitted = 1, Above_18_Years_In_Progress = 0, Total = 1\<rparr>]"
    unfolding compose_rows_def order
    by (simp add: fixture_chapters_def a b make_row_def eval_nat_numeral)
  then show ?thesis
    unfolding counts_def .
qed

lemma fixture_main:
  "main fixture_env fixture_world =
     Some \<lparr>trace =
            [Log INFO Run_start,
             Http_get (JStr ''https://api.us.cr4ce.com/chapter'')
               (Some [(''status'', JStr ''active''), (''per_page'', JNum 100)]),
             Log INFO (Loaded_chapters 2),
             Log INFO (Pulling_entries ''ZLgyzemp''),
             Http_get (JStr ''https://api.us.cr4ce.com/entry'')
               (Some [(''category'', JStr ''ZLgyzemp''), (''per_page'', JNum 100)]),
             Http_get (JStr ''https://api.us.cr4ce.com/entry?page=2'') None,
             Log INFO (Pulling_entries ''Kgwrlowa''),
             Http_get (JStr ''https://api.us.cr4ce.com/entry'')
               (Some [(''category'', JStr ''Kgwrlowa''), (''per_page'', JNum 100)]),
             Excel_write ''award_force_stage1_20250722.xlsx''
               [\<lparr>No = 1, Region = ''AMR'', Chapter_Name = ''Brazil'',
                 Years_13_17_Submitted = 1, Years_13_17_In_Progress = 1,
                 Above_18_Years_Submitted = 0, Above_18_Years_In_Progress = 0, Total = 2\<rparr>,
                \<lparr>No = 2, Region = ''PRC'', Chapter_Name = ''China'',
                 Years_13_17_Submitted = 0, Years_13_17_In_Progress = 0,
                 Above_18_Years_Submitted = 1, Above_18_Years_In_Progress = 0, Total = 1\<rparr>],
             Log INFO (Workbook_saved ''award_force_stage1_20250722.xlsx''),
             Http_post
               \<lparr>post_url = ''https://api.telegram.org/bottoken/sendDocument'',
                chat_id = ''42'', caption = ''award_force_stage1_20250722.xlsx'',
                document_name = ''award_force_stage1_20250722.xlsx'',
                document_path = ''award_force_stage1_20250722.xlsx''\<rparr>,
             Log INFO (Sent_to_telegram ''award_force_stage1_20250722.xlsx'' ''42''),
             Log INFO Run_end],
           remote = 4\<rparr>"
proof -
  let ?rows = "[\<lparr>No = 1, Region = ''AMR'', Chapter_Name = ''Brazil'',
                 Years_13_17_Submitted = 1, Years_13_17_In_Progress = 1,
                 Above_18_Years_Submitted = 0, Above_18_Years_In_Progress = 0, Total = 2\<rparr>,
                \<lparr>No = 2, Region = ''PRC'', Chapter_Name = ''China'',
                 Years_13_17_Submitted = 0, Years_13_17_In_Progress = 0,
                 Above_18_Years_Submitted = 1, Above_18_Years_In_Progress = 0, Total = 1\<rparr>]"
  let ?fetched = "[Log INFO Run_start,
             Http_get (JStr ''https://api.us.cr4ce.com/chapter'')
               (Some [(''status'', JStr ''active''), (''per_page'', JNum 100)]),
             Log INFO (Loaded_chapters 2),
             Log INFO (Pulling_entries ''ZLgyzemp''),
             Http_get (JStr ''https://api.us.cr4ce.com/entry'')
               (Some [(''category'', JStr ''ZLgyzemp''), (''per_page'', JNum 100)]),
             Http_get (JStr ''https://api.us.cr4ce.com/entry?page=2'') None,
             Log INFO (Pulling_entries ''Kgwrlowa''),
             Http_get (JStr ''https://api.us.cr4ce.com/entry'')
               (Some [(''category'', JStr ''Kgwrlowa''), (''per_page'', JNum 100)])]"
  let ?file = "''award_force_stage1_20250722.xlsx''"
  let ?doc = "\<lparr>post_url = ''https://api.telegram.org/bottoken/sendDocument'',
                chat_id = ''42'', caption = ?file, document_name = ?file,
                document_path = ?file\<rparr>"
  have name: "path_name ?file = ?file"
    by (simp add: path_name_def)
  have key: "API_KEY fixture_env = ''key''" "BOT_TOKEN fixture_env = ''token''"
    "CHAT_ID fixture_env = ''42''"
    by (simp_all add: fixture_env_def)
  have mw: "make_workbook fixture_env ?rows \<lparr>trace = ?fetched, remote = 4\<rparr> =
      (Inr ?file, \<lparr>trace = ?fetched @ [Excel_write ?file ?rows], remote = 4\<rparr>)"
    by (simp add: make_workbook_def fixture_env_def Let_def)
  have st: "send_to_telegram fixture_env ?file
              (emit (Log INFO (Workbook_saved ?file))
                 \<lparr>trace = ?fetched @ [Excel_write ?file ?rows], remote = 4\<rparr>) =
      (Inr (), \<lparr>trace = ?fetched @ [Excel_write ?file ?rows, Log INFO (Workbook_saved ?file),
                           Http_post ?doc, Log INFO (Sent_to_telegram ?file ''42'')],
                remote = 4\<rparr>)"
    unfolding send_to_telegram_def name key
    by (simp add: emit_def is_error_status_def fixture_env_def)
  have t: "main_try fixture_env (emit (Log INFO Run_start) fixture_world) =
      Some (Inr (), \<lparr>trace = ?fetched @ [Excel_write ?file ?rows, Log INFO (Workbook_saved ?file),
                           Http_post ?doc, Log INFO (Sent_to_telegram ?file ''42'')],
                remote = 4\<rparr>)"
    unfolding main_try_def
    by (simp only: fixture_fetch_chapters fixture_build_counts fixture_compose_rows mw st
        option.case prod.case sum.case)
  have "main fixture_env fixture_world =
      Some (emit (Log INFO Run_end)
              \<lparr>trace = ?fetched @ [Excel_write ?file ?rows, Log INFO (Workbook_saved ?file),
                           Http_post ?doc, Log INFO (Sent_to_telegram ?file ''42'')],
                remote = 4\<rparr>)"
    unfolding main_def by (simp only: t key option.case prod.case sum.case list.simps if_False)
  then show ?thesis
    by (simp add: emit_def)
qed

theorem run_with_api_key_is_bracketed_by_markers_witness:
  "API_KEY fixture_env \<noteq> []
   \<and> (\<exists>w'. main fixture_env fixture_world = Some w'
          \<and> (\<exists>mid. trace w' = [Log INFO Run_start] @ mid @ [Log INFO Run_end]))
   \<and> API_KEY fixture_env_failing \<noteq> []
   \<and> (\<exists>w'. main fixture_env_failing fixture_world = Some w'
          \<and> (\<exists>mid. trace w' = [Log INFO Run_start] @ mid @ [Log INFO Run_end]))"
proof -
  have key: "API_KEY fixture_env \<noteq> []" and keyf: "API_KEY fixture_env_failing \<noteq> []"
    by (simp_all add: fixture_env_failing_def fixture_env_def)
  have empty: "trace fixture_world = []"
    by (simp add: fixture_world_def)
  obtain w1 where run: "main fixture_env fixture_world = Some w1"
    using fixture_main by blast
  from run_with_api_key_is_bracketed_by_markers [of fixture_env fixture_world w1, THEN conjunct1]
    key run empty
  have "\<exists>mid. trace w1 = [Log INFO Run_start] @ mid @ [Log INFO Run_end]"
    by simp
  with run have ok: "\<exists>w'. main fixture_env fixture_world = Some w'
          \<and> (\<exists>mid. trace w' = [Log INFO Run_start] @ mid @ [Log INFO Run_end])"
    by simp
  from fetch_failure_aborts_run [OF keyf, of fixture_world "HTTP_error 500"]
    fixture_failing_fetch_chapters fixture_failing_build_counts
  obtain w2 where runf: "main fixture_env_failing fixture_world = Some w2"
    by blast
  from run_with_api_key_is_bracketed_by_markers
    [of fixture_env_failing fixture_world w2, THEN conjunct1] keyf runf empty
  have "\<exists>mid. trace w2 = [Log INFO Run_start] @ mid @ [Log INFO Run_end]"
    by simp
  with runf have failed: "\<exists>w'. main fixture_env_failing fixture_world = Some w'
          \<and> (\<exists>mid. trace w' = [Log INFO Run_start] @ mid @ [Log INFO Run_end])"
    by simp
  from key ok keyf failed show ?thesis by (intro conjI)
qed

section \<open>Delivery\<close>

lemma send_without_credentials:
  "BOT_TOKEN env = [] \<or> CHAT_ID env = [] \<Longrightarrow>
   send_to_telegram env file_path w =
     (Inr (), \<lparr>trace = trace w @ [Log ERROR Telegram_credentials_missing], remote = remote w\<rparr>)"
  by (auto simp add: send_to_telegram_def emit_def)

lemma send_with_response:
  assumes "BOT_TOKEN env \<noteq> []" and "CHAT_ID env \<noteq> []"
    and "file_readable env file_path (remote w)"
    and "post_document env (telegram_document env file_path) (remote w)
         = (Post_response code detail, s)"
  shows "send_to_telegram env file_path w =
     (Inr (),
      \<lparr>trace = trace w @
         [Http_post (telegram_document env file_path),
          if is_error_status code then Log ERROR (Telegram_upload_failed detail)
          else Log INFO (Sent_to_telegram (path_name file_path) (CHAT_ID env))],
       remote = s\<rparr>)"
  using assms by (simp add: send_to_telegram_def telegram_document_def emit_def Let_def)

lemma send_unreadable:
  assumes "BOT_TOKEN env \<noteq> []" and "CHAT_ID env \<noteq> []"
    and "\<not> file_readable env file_path (remote w)"
  shows "send_to_telegram env file_path w = (Inl File_error, w)"
  using assms by (simp add: send_to_telegram_def Let_def)

lemma send_post_raises:
  assumes "BOT_TOKEN env \<noteq> []" and "CHAT_ID env \<noteq> []"
    and "file_readable env file_path (remote w)"
    and "post_document env (telegram_document env file_path) (remote w) = (Post_raises, s)"
  shows "send_to_telegram env file_path w =
     (Inl Upload_exception,
      \<lparr>trace = trace w @ [Http_post (telegram_document env file_path)], remote = s\<rparr>)"
  using assms by (simp add: send_to_telegram_def telegram_document_def Let_def)

lemma run_ends_after_workbook:
  assumes key: "API_KEY env \<noteq> []"
    and f: "fetch_chapters env (emit (Log INFO Run_start) u) = Some (Inr chapters, u1)"
    and b: "build_counts env chapters u1 = Some (Inr counts, u2)"
    and c: "compose_rows chapters counts = Inr rows"
    and m: "make_workbook env rows u2 = (Inr wb_path, u3)"
  shows "\<exists>evs w'. main env u = Some w'
           \<and> trace w' = trace u2 @ [Excel_write wb_path rows, Log INFO (Workbook_saved wb_path)]
                           @ evs @ [Log INFO Run_end]"
proof -
  from m have u3: "trace u3 = trace u2 @ [Excel_write wb_path rows]"
    by (auto simp add: make_workbook_def Let_def split: prod.splits if_splits)
  obtain r u4 where s: "send_to_telegram env wb_path (emit (Log INFO (Workbook_saved wb_path)) u3)
                        = (r, u4)"
    by (cases "send_to_telegram env wb_path (emit (Log INFO (Workbook_saved wb_path)) u3)")
  from send_to_telegram_trace [OF s] u3 obtain evs where
    u4: "trace u4 = trace u2 @ [Excel_write wb_path rows, Log INFO (Workbook_saved wb_path)] @ evs"
    by (auto simp add: emit_def)
  from f b c m s have t: "main_try env (emit (Log INFO Run_start) u) = Some (r, u4)"
    by (simp add: main_try_def)
  show ?thesis
  proof (cases r)
    case (Inl exc)
    with key t have "main env u = Some (emit (Log INFO Run_end) (emit (Log ERROR (Run_failed exc)) u4))"
      by (simp add: main_def)
    moreover from u4 have "trace (emit (Log INFO Run_end) (emit (Log ERROR (Run_failed exc)) u4))
        = trace u2 @ [Excel_write wb_path rows, Log INFO (Workbook_saved wb_path)]
            @ (evs @ [Log ERROR (Run_failed exc)]) @ [Log INFO Run_end]"
      by (simp add: emit_def)
    ultimately show ?thesis by blast
  next
    case (Inr x)
    with key t have "main env u = Some (emit (Log INFO Run_end) u4)"
      by (simp add: main_def)
    moreover from u4 have "trace (emit (Log INFO Run_end) u4)
        = trace u2 @ [Excel_write wb_path rows, Log INFO (Workbook_saved wb_path)]
            @ evs @ [Log INFO Run_end]"
      by (simp add: emit_def)
    ultimately show ?thesis by blast
  qed
qed

text \<open>
  C7, as amended. \<^verbatim>\<open>send_to_telegram\<close> has four outcomes. Without a bot token or a chat
  identifier it posts nothing, logs that the credentials are missing and returns. When
  the file opens and the upload returns a response, it returns: after an error status
  with an error line that carries the text of the response, otherwise with the line
  that the file was sent. When the file cannot be opened, or when the upload itself
  raises, \<^verbatim>\<open>send_to_telegram\<close> raises. In \<^verbatim>\<open>main\<close> the delivery comes after the workbook
  is written: whatever the delivery does, the run ends with the end marker, the
  workbook event and its log line standing before the events of the delivery.
\<close>

theorem send_to_telegram_outcomes:
  "(BOT_TOKEN env = [] \<or> CHAT_ID env = [] \<longrightarrow>
      send_to_telegram env file_path w =
        (Inr (), \<lparr>trace = trace w @ [Log ERROR Telegram_credentials_missing],
                  remote = remote w\<rparr>))
   \<and> (BOT_TOKEN env \<noteq> [] \<and> CHAT_ID env \<noteq> [] \<and> file_readable env file_path (remote w)
        \<and> post_document env (telegram_document env file_path) (remote w)
            = (Post_response code detail, s) \<longrightarrow>
        send_to_telegram env file_path w =
          (Inr (),
           \<lparr>trace = trace w @
              [Http_post (telegram_document env file_path),
               if is_error_status code then Log ERROR (Telegram_upload_failed detail)
               else Log INFO (Sent_to_telegram (path_name file_path) (CHAT_ID env))],
            remote = s\<rparr>))
   \<and> (BOT_TOKEN env \<noteq> [] \<and> CHAT_ID env \<noteq> [] \<and> \<not> file_readable env file_path (remote w) \<longrightarrow>
        send_to_telegram env file_path w = (Inl File_error, w))
   \<and> (BOT_TOKEN env \<noteq> [] \<and> CHAT_ID env \<noteq> [] \<and> file_readable env file_path (remote w)
        \<and> post_document env (telegram_document env file_path) (remote w) = (Post_raises, s) \<longrightarrow>
        send_to_telegram env file_path w =
          (Inl Upload_exception,
           \<lparr>trace = trace w @ [Http_post (telegram_document env file_path)], remote = s\<rparr>))
   \<and> (API_KEY env \<noteq> []
        \<and> fetch_chapters env (emit (Log INFO Run_start) u) = Some (Inr chapters, u1)
        \<and> build_counts env chapters u1 = Some (Inr counts, u2)
        \<and> compose_rows chapters counts = Inr rows
        \<and> make_workbook env rows u2 = (Inr wb_path, u3) \<longrightarrow>
        (\<exists>evs w'. main env u = Some w'
           \<and> trace w' = trace u2 @ [Excel_write wb_path rows, Log INFO (Workbook_saved wb_path)]
                           @ evs @ [Log INFO Run_end]))"
  using send_without_credentials [of env file_path w]
    send_with_response [of env file_path w code detail s]
    send_unreadable [of env file_path w]
    send_post_raises [of env file_path w s]
    run_ends_after_workbook [of env u chapters u1 counts u2 rows wb_path u3]
  by (intro conjI impI) (elim conjE, assumption | simp)+

text \<open>
  The claim C7 as stated fails where the upload raises (a timeout, a connection error):
  nothing in \<^verbatim>\<open>send_to_telegram\<close> catches the exception.
\<close>

theorem send_to_telegram_raises_when_upload_raises:
  "send_to_telegram fixture_env_upload_raises ''award_force_stage1_20250722.xlsx'' fixture_world =
     (Inl Upload_exception,
      \<lparr>trace =
         [Http_post
            \<lparr>post_url = ''https://api.telegram.org/bottoken/sendDocument'',
             chat_id = ''42'', caption = ''award_force_stage1_20250722.xlsx'',
             document_name = ''award_force_stage1_20250722.xlsx'',
             document_path = ''award_force_stage1_20250722.xlsx''\<rparr>],
       remote = 0\<rparr>)"
proof -
  have name: "path_name ''award_force_stage1_20250722.xlsx'' = ''award_force_stage1_20250722.xlsx''"
    by (simp add: path_name_def)
  show ?thesis
    unfolding send_to_telegram_def name
    by (simp add: fixture_env_upload_raises_def fixture_env_def fixture_world_def)
qed

theorem send_to_telegram_outcomes_witness:
  "send_to_telegram fixture_env_no_token ''award_force_stage1_20250722.xlsx'' fixture_world =
     (Inr (), \<lparr>trace = [Log ERROR Telegram_credentials_missing], remote = 0\<rparr>)
   \<and> send_to_telegram fixture_env_upload_refused ''award_force_stage1_20250722.xlsx''
        fixture_world =
       (Inr (),
        \<lparr>trace =
           [Http_post
              \<lparr>post_url = ''https://api.telegram.org/bottoken/sendDocument'',
               chat_id = ''42'', caption = ''award_force_stage1_20250722.xlsx'',
               document_name = ''award_force_stage1_20250722.xlsx'',
               document_path = ''award_force_stage1_20250722.xlsx''\<rparr>,
            Log ERROR (Telegram_upload_failed ''Forbidden'')],
         remote = 0\<rparr>)
   \<and> (\<exists>evs w'. main fixture_env_upload_raises fixture_world = Some w'
          \<and> trace w' =
              [Log INFO Run_start,
               Http_get (JStr ''https://api.us.cr4ce.com/chapter'')
                 (Some [(''status'', JStr ''active''), (''per_page'', JNum 100)]),
               Log INFO (Loaded_chapters 2),
               Log INFO (Pulling_entries ''ZLgyzemp''),
               Http_get (JStr ''https://api.us.cr4ce.com/entry'')
                 (Some [(''category'', JStr ''ZLgyzemp''), (''per_page'', JNum 100)]),
               Http_get (JStr ''https://api.us.cr4ce.com/entry?page=2'') None,
               Log INFO (Pulling_entries ''Kgwrlowa''),
               Http_get (JStr ''https://api.us.cr4ce.com/entry'')
                 (Some [(''category'', JStr ''Kgwrlowa''), (''per_page'', JNum 100)])]
              @ [Excel_write ''award_force_stage1_20250722.xlsx''
                   [\<lparr>No = 1, Region = ''AMR'', Chapter_Name = ''Brazil'',
                     Years_13_17_Submitted = 1, Years_13_17_In_Progress = 1,
                     Above_18_Years_Submitted = 0, Above_18_Years_In_Progress = 0, Total = 2\<rparr>,
                    \<lparr>No = 2, Region = ''PRC'', Chapter_Name = ''China'',
                     Years_13_17_Submitted = 0, Years_13_17_In_Progress = 0,
                     Above_18_Years_Submitted = 1, Above_18_Years_In_Progress = 0, Total = 1\<rparr>],
                 Log INFO (Workbook_saved ''award_force_stage1_20250722.xlsx'')]
              @ evs @ [Log INFO Run_end])"
proof -
  let ?file = "''award_force_stage1_20250722.xlsx''"
  let ?doc = "\<lparr>post_url = ''https://api.telegram.org/bottoken/sendDocument'',
               chat_id = ''42'', caption = ?file, document_name = ?file,
               document_path = ?file\<rparr>"
  let ?rows = "[\<lparr>No = 1, Region = ''AMR'', Chapter_Name = ''Brazil'',
                 Years_13_17_Submitted = 1, Years_13_17_In_Progress = 1,
                 Above_18_Years_Submitted = 0, Above_18_Years_In_Progress = 0, Total = 2\<rparr>,
                \<lparr>No = 2, Region = ''PRC'', Chapter_Name = ''China'',
                 Years_13_17_Submitted = 0, Years_13_17_In_Progress = 0,
                 Above_18_Years_Submitted = 1, Above_18_Years_In_Progress = 0, Total = 1\<rparr>]"
  let ?fetched = "[Log INFO Run_start,
             Http_get (JStr ''https://api.us.cr4ce.com/chapter'')
               (Some [(''status'', JStr ''active''), (''per_page'', JNum 100)]),
             Log INFO (Loaded_chapters 2),
             Log INFO (Pulling_entries ''ZLgyzemp''),
             Http_get (JStr ''https://api.us.cr4ce.com/entry'')
               (Some [(''category'', JStr ''ZLgyzemp''), (''per_page'', JNum 100)]),
             Http_get (JStr ''https://api.us.cr4ce.com/entry?page=2'') None,
             Log INFO (Pulling_entries ''Kgwrlowa''),
             Http_get (JStr ''https://api.us.cr4ce.com/entry'')
               (Some [(''category'', JStr ''Kgwrlowa''), (''per_page'', JNum 100)])]"
  have name: "path_name ?file = ?file"
    by (simp add: path_name_def)
  have empty: "trace fixture_world = []" "remote fixture_world = 0"
    by (simp_all add: fixture_world_def)

  have "BOT_TOKEN fixture_env_no_token = []"
    by (simp add: fixture_env_no_token_def)
  with send_to_telegram_outcomes [of fixture_env_no_token ?file fixture_world, THEN conjunct1]
  have one: "send_to_telegram fixture_env_no_token ?file fixture_world =
     (Inr (), \<lparr>trace = [Log ERROR Telegram_credentials_missing], remote = 0\<rparr>)"
    by (simp add: empty)

  have doc: "telegram_document fixture_env_upload_refused ?file = ?doc"
    unfolding telegram_document_def name
    by (simp add: fixture_env_upload_refused_def fixture_env_def)
  have creds: "BOT_TOKEN fixture_env_upload_refused \<noteq> []"
    "CHAT_ID fixture_env_upload_refused \<noteq> []"
    "file_readable fixture_env_upload_refused ?file (remote fixture_world)"
    "post_document fixture_env_upload_refused ?doc (remote fixture_world)
       = (Post_response 403 ''Forbidden'', 0)"
    "is_error_status 403"
    by (simp_all add: fixture_env_upload_refused_def fixture_env_def empty is_error_status_def)
  note refused = send_to_telegram_outcomes
    [of fixture_env_upload_refused ?file fixture_world 403 "''Forbidden''" 0,
     THEN conjunct2, THEN conjunct1]
  from refused creds
  have two: "send_to_telegram fixture_env_upload_refused ?file fixture_world =
       (Inr (), \<lparr>trace = [Http_post ?doc, Log ERROR (Telegram_upload_failed ''Forbidden'')],
                 remote = 0\<rparr>)"
    by (simp add: doc empty)

  have gather: "gather_entries fixture_env_upload_raises = gather_entries fixture_env"
    by (intro ext) (simp add: fixture_env_upload_raises_def gather_entries_def)
  have fetch: "fetch_chapters fixture_env_upload_raises = fetch_chapters fixture_env"
    by (intro ext) (simp add: fixture_env_upload_raises_def fetch_chapters_def)
  have build: "build_counts fixture_env_upload_raises = build_counts fixture_env"
    by (intro ext) (unfold build_counts_def gather, rule refl)
  have make: "make_workbook fixture_env_upload_raises = make_workbook fixture_env"
    by (intro ext) (simp add: fixture_env_upload_raises_def make_workbook_def)
  note same = fetch build make
  have key: "API_KEY fixture_env_upload_raises \<noteq> []"
    by (simp add: fixture_env_upload_raises_def fixture_env_def)
  have mw: "make_workbook fixture_env ?rows \<lparr>trace = ?fetched, remote = 4\<rparr> =
      (Inr ?file, \<lparr>trace = ?fetched @ [Excel_write ?file ?rows], remote = 4\<rparr>)"
    by (simp add: make_workbook_def fixture_env_def Let_def)
  note run = send_to_telegram_outcomes
    [where env = fixture_env_upload_raises and u = fixture_world and chapters = fixture_chapters
       and ?u2.0 = "\<lparr>trace = ?fetched, remote = 4\<rparr>" and rows = ?rows and wb_path = ?file,
     THEN conjunct2, THEN conjunct2, THEN conjunct2, THEN conjunct2]
  from run key fixture_fetch_chapters fixture_build_counts fixture_compose_rows mw
  have three: "\<exists>evs w'. main fixture_env_upload_raises fixture_world = Some w'
          \<and> trace w' = ?fetched @ [Excel_write ?file ?rows, Log INFO (Workbook_saved ?file)]
                          @ evs @ [Log INFO Run_end]"
    unfolding same by (simp only: world.simps) blast
  from one two three show ?thesis by (intro conjI)
qed

end
